theory Spec2Isabelle
  imports Main "HOL-Library.Char_ord" "HOL-Library.List_Lexorder" "HOL-Library.AList"
begin

section \<open>Data model\<close>

text \<open>
  The packages \<^verbatim>\<open>types/version\<close>, \<^verbatim>\<open>types/arch\<close> and \<^verbatim>\<open>types/dependency\<close> are imported
  by the sources under verification but are not among them. Their data is declared here with the
  fields the verified code reads; their operations are taken as parameters (record \<open>lib\<close>).
\<close>

text \<open>Modelled from the spec: the \<^verbatim>\<open>version.Version\<close> struct, a triple (epoch, upstream,
  revision). The zero value has epoch 0 and empty strings.\<close>

record version =
  Epoch :: nat
  Upstream :: string
  Revision :: string

definition zero_Version :: version where
  "zero_Version = \<lparr>Epoch = 0, Upstream = [], Revision = []\<rparr>"

text \<open>An \<^verbatim>\<open>arch.Arch\<close> is represented by its rendering \<^verbatim>\<open>String()\<close>, the only view of it
  the verified code takes besides the predicate \<^verbatim>\<open>Is\<close>. The zero value is the empty rendering.\<close>

type_synonym arch = string

definition zero_Arch :: arch where
  "zero_Arch = []"

text \<open>\<^verbatim>\<open>dependency.VersionRelation{Operator, Version}\<close>, \<^verbatim>\<open>dependency.Possibility{Name, Version}\<close>
  (architecture and build-profile filters are never read by the verified code),
  \<^verbatim>\<open>dependency.Relation{Possibilities}\<close> and \<^verbatim>\<open>dependency.Dependency{Relations}\<close>.\<close>

record version_relation =
  Operator :: string
  Number :: version

record possibility =
  Name :: string
  VersionRel :: "version_relation option"

record relation =
  Possibilities :: "possibility list"

record dependency =
  Relations :: "relation list"

definition no_Dependency :: dependency where
  "no_Dependency = \<lparr>Relations = []\<rparr>"

text \<open>\<^verbatim>\<open>types.Package\<close>. The descriptive fields (Source, Maintainer, Description, sizes,
  checksum, the other relation fields) are never read by the verified code and are left out.\<close>

datatype package = Pkg
  (Package: string)
  (Version: version)
  (Architecture: arch)
  (Provides: dependency)
  (Depends: dependency)
  (PreDepends: dependency)
  (Priority: string)
  (Filename: string)
  (URLs: "string list")
  (IsVirtual: bool)
  (Providers: "package list")

text \<open>The operations of the absent packages that the verified code calls.\<close>

record lib =
  version_Parse :: "string \<Rightarrow> version option"
  version_Compare :: "version \<Rightarrow> version \<Rightarrow> int"
  version_String :: "version \<Rightarrow> string"
  arch_Is :: "arch \<Rightarrow> arch \<Rightarrow> bool"

section \<open>Versions\<close>

text \<open>Modelled from the spec: the operations of the package \<^verbatim>\<open>types/version\<close>, which is not
  among the sources. \<open>parse\<close> reads the rendered form \<^verbatim>\<open>[E:]U[-R]\<close> and rejects the empty string,
  a non-numeric epoch, a character other than an alphanumeric or one of \<^verbatim>\<open>.+-~:\<close>, and, when
  there is no epoch, an upstream part that does not start with a digit. \<open>compare\<close> compares epochs numerically, then
  the upstream parts and then the revisions in alternating non-digit and digit segments: a non-digit
  segment character by character in the order \<^verbatim>\<open>~\<close>, end of segment, letters, other characters;
  a digit segment by its numeric value. \<open>to_string\<close> renders \<^verbatim>\<open>[E:]U[-R]\<close>, leaving an optional
  part out only where the text still parses to the same version, as the round trip that the
  spec requires needs.\<close>

definition is_digit :: "char \<Rightarrow> bool" where
  "is_digit c = (CHR ''0'' \<le> c \<and> c \<le> CHR ''9'')"

definition is_letter :: "char \<Rightarrow> bool" where
  "is_letter c = ((CHR ''a'' \<le> c \<and> c \<le> CHR ''z'') \<or> (CHR ''A'' \<le> c \<and> c \<le> CHR ''Z''))"

definition digit_value :: "char \<Rightarrow> nat" where
  "digit_value c = of_char c - 48"

definition number :: "string \<Rightarrow> nat" where
  "number ds = foldl (\<lambda>n c. 10 * n + digit_value c) 0 ds"

definition order :: "char \<Rightarrow> int" where
  "order c = (if c = CHR ''~'' then - 1 else if is_letter c then int (of_char c) else int (of_char c) + 256)"

fun compare_nondigit :: "string \<Rightarrow> string \<Rightarrow> int" where
  "compare_nondigit [] [] = 0"
| "compare_nondigit (a # as) [] = (if order a < 0 then - 1 else 1)"
| "compare_nondigit [] (b # bs) = (if order b < 0 then 1 else - 1)"
| "compare_nondigit (a # as) (b # bs) =
     (if order a < order b then - 1 else if order b < order a then 1 else compare_nondigit as bs)"

lemma length_dropWhile_le': "length (dropWhile P (dropWhile Q xs)) \<le> length xs"
  by (meson dual_order.trans length_dropWhile_le)

lemma length_dropWhile_alt: "xs \<noteq> [] \<Longrightarrow> length (dropWhile P (dropWhile (\<lambda>x. \<not> P x) xs)) < length xs"
proof (cases xs)
  case Nil then show "xs \<noteq> [] \<Longrightarrow> ?thesis" by simp
next
  case (Cons x ys)
  show ?thesis
  proof (cases "P x")
    case True
    then have "dropWhile P (dropWhile (\<lambda>x. \<not> P x) xs) = dropWhile P ys" using Cons by simp
    then show ?thesis using Cons length_dropWhile_le[of P ys] by simp
  next
    case False
    then have "dropWhile (\<lambda>x. \<not> P x) xs = dropWhile (\<lambda>x. \<not> P x) ys" using Cons by simp
    then show ?thesis using Cons length_dropWhile_le'[of P "\<lambda>x. \<not> P x" ys] by simp
  qed
qed

function compare_string :: "string \<Rightarrow> string \<Rightarrow> int" where
  "compare_string a b =
     (if a = [] \<and> b = [] then 0
      else if compare_nondigit (takeWhile (\<lambda>c. \<not> is_digit c) a) (takeWhile (\<lambda>c. \<not> is_digit c) b) \<noteq> 0
        then compare_nondigit (takeWhile (\<lambda>c. \<not> is_digit c) a) (takeWhile (\<lambda>c. \<not> is_digit c) b)
      else if number (takeWhile is_digit (dropWhile (\<lambda>c. \<not> is_digit c) a))
                < number (takeWhile is_digit (dropWhile (\<lambda>c. \<not> is_digit c) b)) then - 1
      else if number (takeWhile is_digit (dropWhile (\<lambda>c. \<not> is_digit c) b))
                < number (takeWhile is_digit (dropWhile (\<lambda>c. \<not> is_digit c) a)) then 1
      else compare_string (dropWhile is_digit (dropWhile (\<lambda>c. \<not> is_digit c) a))
                          (dropWhile is_digit (dropWhile (\<lambda>c. \<not> is_digit c) b)))"
  by pat_completeness auto
termination
proof (relation "measure (\<lambda>(a, b). length a + length b)")
  show "wf (measure (\<lambda>(a, b). length a + length b))" by simp
next
  fix a b :: string
  assume ne: "\<not> (a = [] \<and> b = [])"
  have la: "length (dropWhile is_digit (dropWhile (\<lambda>c. \<not> is_digit c) a)) \<le> length a"
    by (rule length_dropWhile_le')
  have lb: "length (dropWhile is_digit (dropWhile (\<lambda>c. \<not> is_digit c) b)) \<le> length b"
    by (rule length_dropWhile_le')
  have "a \<noteq> [] \<or> b \<noteq> []" using ne by simp
  then have "length (dropWhile is_digit (dropWhile (\<lambda>c. \<not> is_digit c) a))
           + length (dropWhile is_digit (dropWhile (\<lambda>c. \<not> is_digit c) b)) < length a + length b"
    using la lb length_dropWhile_alt[of a is_digit] length_dropWhile_alt[of b is_digit] by linarith
  then show "((dropWhile is_digit (dropWhile (\<lambda>c. \<not> is_digit c) a),
               dropWhile is_digit (dropWhile (\<lambda>c. \<not> is_digit c) b)), (a, b))
             \<in> measure (\<lambda>(a, b). length a + length b)" by simp
qed

declare compare_string.simps [simp del]

definition compare :: "version \<Rightarrow> version \<Rightarrow> int" where
  "compare a b =
     (if Epoch a < Epoch b then - 1
      else if Epoch b < Epoch a then 1
      else if compare_string (Upstream a) (Upstream b) \<noteq> 0 then compare_string (Upstream a) (Upstream b)
      else compare_string (Revision a) (Revision b))"

definition allowed :: "char \<Rightarrow> bool" where
  "allowed c = (is_digit c \<or> is_letter c \<or> c \<in> set ''.+-~:'')"

definition parse :: "string \<Rightarrow> version option" where
  "parse s =
     (let has_epoch = (CHR '':'' \<in> set s);
          e = takeWhile (\<lambda>c. c \<noteq> CHR '':'') s;
          rest = (if has_epoch then tl (dropWhile (\<lambda>c. c \<noteq> CHR '':'') s) else s);
          has_revision = (CHR ''-'' \<in> set rest);
          r = (if has_revision then rev (takeWhile (\<lambda>c. c \<noteq> CHR ''-'') (rev rest)) else []);
          u = (if has_revision then rev (tl (dropWhile (\<lambda>c. c \<noteq> CHR ''-'') (rev rest))) else rest)
      in if s = [] then None
         else if has_epoch \<and> (e = [] \<or> \<not> list_all is_digit e) then None
         else if \<not> list_all allowed rest then None
         else if \<not> has_epoch \<and> (u = [] \<or> \<not> is_digit (hd u)) then None
         else Some \<lparr>Epoch = (if has_epoch then number e else 0), Upstream = u, Revision = r\<rparr>)"

fun digits :: "nat \<Rightarrow> string" where
  "digits n = (if n < 10 then [char_of (48 + n)] else digits (n div 10) @ [char_of (48 + n mod 10)])"

declare digits.simps [simp del]

definition to_string :: "version \<Rightarrow> string" where
  "to_string v =
     (if Epoch v = 0 \<and> CHR '':'' \<notin> set (Upstream v) \<and> Upstream v \<noteq> [] \<and> is_digit (hd (Upstream v))
      then [] else digits (Epoch v) @ '':'')
     @ Upstream v
     @ (if Revision v = [] \<and> CHR ''-'' \<notin> set (Upstream v) then [] else ''-'' @ Revision v)"

definition compare_text :: "string \<Rightarrow> string \<Rightarrow> int option" where
  "compare_text a b =
     (case parse a of None \<Rightarrow> None
      | Some x \<Rightarrow> (case parse b of None \<Rightarrow> None | Some y \<Rightarrow> Some (compare x y)))"

text \<open>The first non-digit segment, the value of the digit segment after it, and what follows.\<close>

definition nondigits :: "string \<Rightarrow> string" where
  "nondigits a = takeWhile (\<lambda>c. \<not> is_digit c) a"

definition digits_value :: "string \<Rightarrow> nat" where
  "digits_value a = number (takeWhile is_digit (dropWhile (\<lambda>c. \<not> is_digit c) a))"

definition remainder :: "string \<Rightarrow> string" where
  "remainder a = dropWhile is_digit (dropWhile (\<lambda>c. \<not> is_digit c) a)"

text \<open>The parameters instantiated with the version operations modelled from the spec and with
  an architecture that matches itself only; used to run the model on concrete inputs.\<close>

definition sample_lib :: lib where
  "sample_lib = \<lparr>version_Parse = parse, version_Compare = compare, version_String = to_string,
                  arch_Is = (\<lambda>a b. a = b)\<rparr>"

section \<open>Packages\<close>

text \<open>Go's \<^verbatim>\<open>strings.Compare\<close>: bytewise lexicographic comparison.\<close>

definition strings_Compare :: "string \<Rightarrow> string \<Rightarrow> int" where
  "strings_Compare a b = (if a = b then 0 else if a < b then - 1 else 1)"

text \<open>\<^verbatim>\<open>Package.ID\<close> and \<^verbatim>\<open>Package.Compare\<close> (internal/types/package.go).\<close>

definition ID :: "lib \<Rightarrow> package \<Rightarrow> string" where
  "ID L p = Package p @ ''_'' @ version_String L (Version p) @ ''_'' @ Architecture p"

definition Compare :: "lib \<Rightarrow> package \<Rightarrow> package \<Rightarrow> int" where
  "Compare L a b =
    (if strings_Compare (Package a) (Package b) \<noteq> 0 then strings_Compare (Package a) (Package b)
     else if version_Compare L (Version a) (Version b) \<noteq> 0
       then version_Compare L (Version a) (Version b)
     else if arch_Is L (Architecture a) (Architecture b) \<or> arch_Is L (Architecture b) (Architecture a)
       then 0
     else strings_Compare (Architecture a) (Architecture b))"

section \<open>The package database\<close>

text \<open>
  \<^verbatim>\<open>PackageDB\<close> wraps a \<^verbatim>\<open>btree.BTreeG[types.Package]\<close> of the library github.com/google/btree,
  which is modelled by its documented contract: the tree is the list of its items in ascending
  order; two items are equal when neither is less than the other; \<^verbatim>\<open>ReplaceOrInsert\<close>
  removes the item equal to the new one and inserts the new one at its place in the order;
  \<^verbatim>\<open>Delete\<close> removes the item equal to its argument; \<^verbatim>\<open>Get\<close> returns it;
  \<^verbatim>\<open>AscendGreaterOrEqual\<close> visits every item in the range [pivot, last] in ascending order
  and \<^verbatim>\<open>DescendLessOrEqual\<close> every item in the range [pivot, first] in descending order.
  The mutex of \<^verbatim>\<open>PackageDB\<close> plays no part in a sequential run and is not modelled.
\<close>

definition btree_equal :: "('a \<Rightarrow> 'a \<Rightarrow> bool) \<Rightarrow> 'a \<Rightarrow> 'a \<Rightarrow> bool" where
  "btree_equal lt a b = (\<not> lt a b \<and> \<not> lt b a)"

definition Delete :: "('a \<Rightarrow> 'a \<Rightarrow> bool) \<Rightarrow> 'a \<Rightarrow> 'a list \<Rightarrow> 'a list" where
  "Delete lt x t = filter (\<lambda>y. \<not> btree_equal lt y x) t"

definition ReplaceOrInsert :: "('a \<Rightarrow> 'a \<Rightarrow> bool) \<Rightarrow> 'a \<Rightarrow> 'a list \<Rightarrow> 'a list" where
  "ReplaceOrInsert lt x t =
     takeWhile (\<lambda>y. \<not> lt x y) (Delete lt x t) @ x # dropWhile (\<lambda>y. \<not> lt x y) (Delete lt x t)"

definition btree_Get :: "('a \<Rightarrow> 'a \<Rightarrow> bool) \<Rightarrow> 'a \<Rightarrow> 'a list \<Rightarrow> 'a option" where
  "btree_Get lt x t = find (\<lambda>y. btree_equal lt y x) t"

definition AscendGreaterOrEqual :: "('a \<Rightarrow> 'a \<Rightarrow> bool) \<Rightarrow> 'a \<Rightarrow> 'a list \<Rightarrow> 'a list" where
  "AscendGreaterOrEqual lt pivot t = filter (\<lambda>y. \<not> lt y pivot) t"

definition DescendLessOrEqual :: "('a \<Rightarrow> 'a \<Rightarrow> bool) \<Rightarrow> 'a \<Rightarrow> 'a list \<Rightarrow> 'a list" where
  "DescendLessOrEqual lt pivot t = rev (filter (\<lambda>y. \<not> lt pivot y) t)"

type_synonym PackageDB = "package list"

text \<open>The \<open>less\<close> function given to \<^verbatim>\<open>btree.NewG\<close> by \<^verbatim>\<open>NewPackageDB\<close>.\<close>

definition pkg_less :: "lib \<Rightarrow> package \<Rightarrow> package \<Rightarrow> bool" where
  "pkg_less L a b = (Compare L a b < 0)"

text \<open>The composite literals \<^verbatim>\<open>types.Package{Package: name, Version: v}\<close> (the pivot of the
  range queries) and \<^verbatim>\<open>types.Package{Package: name, IsVirtual: true}\<close> with its version set.\<close>

definition pivot :: "string \<Rightarrow> version \<Rightarrow> package" where
  "pivot name v = Pkg name v zero_Arch no_Dependency no_Dependency no_Dependency [] [] [] False []"

definition virtualPkg :: "string \<Rightarrow> version \<Rightarrow> package" where
  "virtualPkg name v = Pkg name v zero_Arch no_Dependency no_Dependency no_Dependency [] [] [] True []"

definition set_Providers :: "package list \<Rightarrow> package \<Rightarrow> package" where
  "set_Providers ps p =
     Pkg (Package p) (Version p) (Architecture p) (Provides p) (Depends p) (PreDepends p)
       (Priority p) (Filename p) (URLs p) (IsVirtual p) ps"

definition possi_Version :: "possibility \<Rightarrow> version" where
  "possi_Version possi = (case VersionRel possi of None \<Rightarrow> zero_Version | Some vr \<Rightarrow> Number vr)"

definition all_Possibilities :: "dependency \<Rightarrow> possibility list" where
  "all_Possibilities d = concat (map Possibilities (Relations d))"

text \<open>The body of the two nested loops of \<^verbatim>\<open>addPackage\<close>, for one possibility of Provides.\<close>

definition addProvider :: "lib \<Rightarrow> package \<Rightarrow> possibility \<Rightarrow> PackageDB \<Rightarrow> PackageDB" where
  "addProvider L pkg possi t =
     (let v = (case btree_Get (pkg_less L) (virtualPkg (Name possi) (possi_Version possi)) t of
                 Some existing \<Rightarrow> existing
               | None \<Rightarrow> virtualPkg (Name possi) (possi_Version possi))
      in if list_ex (\<lambda>provider. Compare L provider pkg = 0) (Providers v) then t
         else ReplaceOrInsert (pkg_less L) (set_Providers (Providers v @ [pkg]) v) t)"

definition addPackage :: "lib \<Rightarrow> package \<Rightarrow> PackageDB \<Rightarrow> PackageDB" where
  "addPackage L pkg t =
     fold (addProvider L pkg) (all_Possibilities (Provides pkg)) (ReplaceOrInsert (pkg_less L) pkg t)"

definition Add :: "lib \<Rightarrow> package \<Rightarrow> PackageDB \<Rightarrow> PackageDB" where
  "Add L pkg t = addPackage L pkg t"

definition AddAll :: "lib \<Rightarrow> package list \<Rightarrow> PackageDB \<Rightarrow> PackageDB" where
  "AddAll L packageList t = fold (addPackage L) packageList t"

text \<open>The body of the two nested loops of \<^verbatim>\<open>Remove\<close>, for one possibility of Provides.\<close>

definition removeProvider :: "lib \<Rightarrow> package \<Rightarrow> possibility \<Rightarrow> PackageDB \<Rightarrow> PackageDB" where
  "removeProvider L pkg possi t =
     (case btree_Get (pkg_less L) (virtualPkg (Name possi) (possi_Version possi)) t of
        None \<Rightarrow> t
      | Some v \<Rightarrow>
          (let updatedProviders = filter (\<lambda>provider. Compare L provider pkg \<noteq> 0) (Providers v)
           in if updatedProviders = [] then Delete (pkg_less L) (set_Providers updatedProviders v) t
              else ReplaceOrInsert (pkg_less L) (set_Providers updatedProviders v) t))"

definition Remove :: "lib \<Rightarrow> package \<Rightarrow> PackageDB \<Rightarrow> PackageDB" where
  "Remove L pkg t =
     fold (removeProvider L pkg) (all_Possibilities (Provides pkg)) (Delete (pkg_less L) pkg t)"

text \<open>The range queries. Each iterator stops at the first item of another name.\<close>

definition Get :: "lib \<Rightarrow> PackageDB \<Rightarrow> string \<Rightarrow> package list" where
  "Get L t name =
     takeWhile (\<lambda>pkg. Package pkg = name) (AscendGreaterOrEqual (pkg_less L) (pivot name zero_Version) t)"

definition EarlierOrEqual :: "lib \<Rightarrow> PackageDB \<Rightarrow> string \<Rightarrow> version \<Rightarrow> package list" where
  "EarlierOrEqual L t name v =
     takeWhile (\<lambda>pkg. Package pkg = name) (DescendLessOrEqual (pkg_less L) (pivot name v) t)"

definition LaterOrEqual :: "lib \<Rightarrow> PackageDB \<Rightarrow> string \<Rightarrow> version \<Rightarrow> package list" where
  "LaterOrEqual L t name v =
     takeWhile (\<lambda>pkg. Package pkg = name) (AscendGreaterOrEqual (pkg_less L) (pivot name v) t)"

definition ExactlyEqual :: "lib \<Rightarrow> PackageDB \<Rightarrow> string \<Rightarrow> version \<Rightarrow> package option" where
  "ExactlyEqual L t name v =
     (case AscendGreaterOrEqual (pkg_less L) (pivot name v) t of
        [] \<Rightarrow> None
      | pkg # _ \<Rightarrow>
          if Package pkg \<noteq> name then None
          else if version_Compare L (Version pkg) v = 0 then Some pkg
          else None)"

section \<open>The resolver\<close>

datatype error =
    InvalidVersion string
  | UnableToLocate string
  | FailedToGetDependencies string error
  | UnknownOperator string
  | UnsatisfiableRelation relation
  | UnsatisfiableVirtual string
  | MultipleCandidates string
  | NotSelected

text \<open>\<^verbatim>\<open>resolveVirtualPackage(packageDB, candidateDB, virtualPkg)\<close>.\<close>

definition virtualProviders :: "lib \<Rightarrow> PackageDB \<Rightarrow> package \<Rightarrow> package list" where
  "virtualProviders L packageDB v =
     List.map_filter (\<lambda>provider. ExactlyEqual L packageDB (Package provider) (Version provider))
       (Providers v)"

definition resolveVirtualPackage :: "lib \<Rightarrow> PackageDB \<Rightarrow> PackageDB \<Rightarrow> package \<Rightarrow> error + package" where
  "resolveVirtualPackage L packageDB candidateDB v =
     (let virtualProviders = virtualProviders L packageDB v
      in case virtualProviders of
           [] \<Rightarrow> Inl (UnsatisfiableVirtual (Package v))
         | [p] \<Rightarrow> Inr p
         | _ \<Rightarrow>
            (case find (\<lambda>pkg. ExactlyEqual L candidateDB (Package pkg) (Version pkg) \<noteq> None) virtualProviders of
               Some pkg \<Rightarrow> Inr pkg
             | None \<Rightarrow>
                (case find (\<lambda>pkg. Priority pkg = ''required'') virtualProviders of
                   Some pkg \<Rightarrow> Inr pkg
                 | None \<Rightarrow> Inl (MultipleCandidates (Package v)))))"

text \<open>\<^verbatim>\<open>getDependencies\<close>: the operator switch, the loop resolving virtual packages, the loop over
  the possibilities of one relation, and the loop over the relations.\<close>

definition lookupPossibility :: "lib \<Rightarrow> PackageDB \<Rightarrow> possibility \<Rightarrow> error + package list" where
  "lookupPossibility L packageDB possi =
     (case VersionRel possi of
        None \<Rightarrow> Inr (Get L packageDB (Name possi))
      | Some vr \<Rightarrow>
          if Operator vr = ''<<'' then Inr (EarlierOrEqual L packageDB (Name possi) (Number vr))
          else if Operator vr = ''<='' then Inr (EarlierOrEqual L packageDB (Name possi) (Number vr))
          else if Operator vr = ''='' then
            (case ExactlyEqual L packageDB (Name possi) (Number vr) of
               Some pkg \<Rightarrow> Inr [pkg]
             | None \<Rightarrow> Inr [])
          else if Operator vr = ''>='' then Inr (LaterOrEqual L packageDB (Name possi) (Number vr))
          else if Operator vr = ''>>'' then Inr (LaterOrEqual L packageDB (Name possi) (Number vr))
          else Inl (UnknownOperator (Operator vr)))"

fun resolvePackages :: "lib \<Rightarrow> PackageDB \<Rightarrow> PackageDB \<Rightarrow> package list \<Rightarrow> package list" where
  "resolvePackages L packageDB candidateDB [] = []"
| "resolvePackages L packageDB candidateDB (pkg # packageList) =
     (if IsVirtual pkg then
        (case resolveVirtualPackage L packageDB candidateDB pkg of
           Inr resolvedPkg \<Rightarrow> resolvedPkg # resolvePackages L packageDB candidateDB packageList
         | Inl err \<Rightarrow> resolvePackages L packageDB candidateDB packageList)
      else pkg # resolvePackages L packageDB candidateDB packageList)"

fun resolveRelation :: "lib \<Rightarrow> PackageDB \<Rightarrow> PackageDB \<Rightarrow> possibility list \<Rightarrow> error + package list option" where
  "resolveRelation L packageDB candidateDB [] = Inr None"
| "resolveRelation L packageDB candidateDB (possi # possis) =
     (case lookupPossibility L packageDB possi of
        Inl err \<Rightarrow> Inl err
      | Inr packageList \<Rightarrow>
          if resolvePackages L packageDB candidateDB packageList \<noteq> []
          then Inr (Some (resolvePackages L packageDB candidateDB packageList))
          else resolveRelation L packageDB candidateDB possis)"

fun resolveRelations :: "lib \<Rightarrow> PackageDB \<Rightarrow> PackageDB \<Rightarrow> relation list \<Rightarrow> package list \<Rightarrow> error + package list" where
  "resolveRelations L packageDB candidateDB [] dependencies = Inr dependencies"
| "resolveRelations L packageDB candidateDB (rel # relations) dependencies =
     (case resolveRelation L packageDB candidateDB (Possibilities rel) of
        Inl err \<Rightarrow> Inl err
      | Inr None \<Rightarrow> Inl (UnsatisfiableRelation rel)
      | Inr (Some resolvedPackages) \<Rightarrow>
          resolveRelations L packageDB candidateDB relations (dependencies @ resolvedPackages))"

definition getDependencies :: "lib \<Rightarrow> PackageDB \<Rightarrow> PackageDB \<Rightarrow> package \<Rightarrow> error + package list" where
  "getDependencies L packageDB candidateDB pkg =
     resolveRelations L packageDB candidateDB
       (Relations (PreDepends pkg) @ Relations (Depends pkg)) []"

text \<open>
  The resolver works on three databases through pointers: the pool it was constructed with and
  two databases it creates. The heap maps an address to the tree of the database at that
  address; \<^verbatim>\<open>NewPackageDB\<close> allocates the next free address, and a mutating method called
  through a pointer updates the heap at that address only.
\<close>

type_synonym heap = "PackageDB list"

definition NewPackageDB :: "heap \<Rightarrow> nat \<times> heap" where
  "NewPackageDB h = (length h, h @ [[]])"

definition call :: "nat \<Rightarrow> (PackageDB \<Rightarrow> PackageDB) \<Rightarrow> heap \<Rightarrow> heap" where
  "call a method h = h[a := method (h ! a)]"

text \<open>\<^verbatim>\<open>pruneUnsatisfied(candidateDB)\<close>. The loop ends when a full scan prunes nothing; a run
  of the loop that never ends is the value \<open>None\<close>.\<close>

partial_function (option) pruneUnsatisfied :: "lib \<Rightarrow> nat \<Rightarrow> heap \<Rightarrow> heap option" where
  "pruneUnsatisfied L candidateDB h =
     (if filter (\<lambda>pkg. isl (getDependencies L (h ! candidateDB) (h ! candidateDB) pkg)) (h ! candidateDB) = []
      then Some h
      else pruneUnsatisfied L candidateDB
             (fold (\<lambda>pkg. call candidateDB (Remove L pkg))
                (filter (\<lambda>pkg. isl (getDependencies L (h ! candidateDB) (h ! candidateDB) pkg)) (h ! candidateDB))
                h))"

declare pruneUnsatisfied.simps [code]

text \<open>The requests seen so far, \<^verbatim>\<open>requestedPackages map[string]*version.Version\<close>, as an
  association list: a name maps to \<open>Some v\<close> when pinned and to \<open>None\<close> (a nil pointer) when not.\<close>

type_synonym requested = "(string \<times> version option) list"

text \<open>\<^verbatim>\<open>strings.SplitN(s, "=", 2)\<close>: the name, and the text after the first \<^verbatim>\<open>=\<close> if there is one.\<close>

definition SplitN2 :: "string \<Rightarrow> string \<times> string option" where
  "SplitN2 s =
     (takeWhile (\<lambda>c. c \<noteq> CHR ''='') s,
      if CHR ''='' \<in> set s then Some (tl (dropWhile (\<lambda>c. c \<noteq> CHR ''='') s)) else None)"

text \<open>Phase 1 of \<^verbatim>\<open>Resolve\<close>: the loop over the requests. \<open>r\<close> is the pool
  (\<^verbatim>\<open>r.packageDB\<close>), \<open>c\<close> the candidate database.\<close>

fun seedCandidates :: "lib \<Rightarrow> nat \<Rightarrow> nat \<Rightarrow> string list \<Rightarrow> requested \<Rightarrow> heap \<Rightarrow> (error + requested) \<times> heap" where
  "seedCandidates L r c [] requestedPackages h = (Inr requestedPackages, h)"
| "seedCandidates L r c (packageNameVersion # rest) requestedPackages h =
     (case snd (SplitN2 packageNameVersion) of
        Some text \<Rightarrow>
          (case version_Parse L text of
             None \<Rightarrow> (Inl (InvalidVersion text), h)
           | Some v \<Rightarrow>
               (case ExactlyEqual L (h ! r) (fst (SplitN2 packageNameVersion)) v of
                  None \<Rightarrow> (Inl (UnableToLocate packageNameVersion), h)
                | Some pkg \<Rightarrow>
                    seedCandidates L r c rest
                      (AList.update (fst (SplitN2 packageNameVersion)) (Some v) requestedPackages)
                      (call c (Add L pkg) h)))
      | None \<Rightarrow>
          (if Get L (h ! r) (fst (SplitN2 packageNameVersion)) = []
           then (Inl (UnableToLocate packageNameVersion), h)
           else seedCandidates L r c rest
                  (AList.update (fst (SplitN2 packageNameVersion)) None requestedPackages)
                  (call c (AddAll L (Get L (h ! r) (fst (SplitN2 packageNameVersion)))) h)))"

text \<open>Phase 2: the work-queue loop. A run that never ends is the value \<open>None\<close>.\<close>

partial_function (option) buildTree ::
  "lib \<Rightarrow> nat \<Rightarrow> nat \<Rightarrow> package list \<Rightarrow> string set \<Rightarrow> heap \<Rightarrow> ((error + unit) \<times> heap) option" where
  "buildTree L r c queue visited h =
     (case queue of
        [] \<Rightarrow> Some (Inr (), h)
      | pkg # rest \<Rightarrow>
          if ID L pkg \<in> visited then buildTree L r c rest visited h
          else
            (case getDependencies L (h ! r) (h ! c) pkg of
               Inl err \<Rightarrow> Some (Inl (FailedToGetDependencies (Package pkg) err), h)
             | Inr deps \<Rightarrow>
                 buildTree L r c
                   (rest @ filter (\<lambda>d. ID L d \<notin> insert (ID L pkg) visited) deps)
                   (insert (ID L pkg) visited)
                   (fold (\<lambda>d. call c (Add L d)) (filter (\<lambda>d. ID L d \<notin> insert (ID L pkg) visited) deps) h)))"

declare buildTree.simps [code]

text \<open>Phase 4: the body of the walk over the candidates, acting on the selected database.\<close>

definition selectNewest :: "lib \<Rightarrow> requested \<Rightarrow> package \<Rightarrow> PackageDB \<Rightarrow> PackageDB" where
  "selectNewest L requestedPackages pkg selectedDB =
     (case map_of requestedPackages (Package pkg) of
        Some (Some packageVersion) \<Rightarrow>
          if version_Compare L (Version pkg) packageVersion = 0 then Add L pkg selectedDB
          else selectedDB
      | _ \<Rightarrow>
          (case Get L selectedDB (Package pkg) of
             [] \<Rightarrow> Add L pkg selectedDB
           | existing # _ \<Rightarrow>
               if version_Compare L (Version pkg) (Version existing) > 0
               then Add L pkg (Remove L existing selectedDB)
               else selectedDB))"

text \<open>Phase 6: the requested packages are still selected. Go ranges over the map in an
  unspecified order, so which missing request the error names is not determined; the model
  keeps the kind of the error only.\<close>

definition stillSelected :: "lib \<Rightarrow> requested \<Rightarrow> PackageDB \<Rightarrow> bool" where
  "stillSelected L requestedPackages selectedDB =
     list_all (\<lambda>(name, v). case v of
                  Some pinned \<Rightarrow> ExactlyEqual L selectedDB name pinned \<noteq> None
                | None \<Rightarrow> Get L selectedDB name \<noteq> [])
       requestedPackages"

text \<open>\<^verbatim>\<open>Resolver.Resolve\<close>. \<open>r\<close> is the address held in \<^verbatim>\<open>r.packageDB\<close>; a nil or dangling
  pointer makes the first method call panic, which like a run that never ends is the value
  \<open>None\<close>. The result is the error or the address of the selected database, with the heap
  after the call.\<close>

definition Resolve :: "lib \<Rightarrow> nat \<Rightarrow> string list \<Rightarrow> heap \<Rightarrow> ((error + nat) \<times> heap) option" where
  "Resolve L r packageNameVersions h =
     (if length h \<le> r then None
      else
        (case seedCandidates L r (fst (NewPackageDB h)) packageNameVersions [] (snd (NewPackageDB h)) of
           (Inl err, h1) \<Rightarrow> Some (Inl err, h1)
         | (Inr requestedPackages, h1) \<Rightarrow>
            (case buildTree L r (fst (NewPackageDB h)) (h1 ! fst (NewPackageDB h)) {} h1 of
               None \<Rightarrow> None
             | Some (Inl err, h2) \<Rightarrow> Some (Inl err, h2)
             | Some (Inr u, h2) \<Rightarrow>
                (case pruneUnsatisfied L (fst (NewPackageDB h)) h2 of
                   None \<Rightarrow> None
                 | Some h3 \<Rightarrow>
                    (case pruneUnsatisfied L (fst (NewPackageDB h3))
                            (fold (\<lambda>pkg. call (fst (NewPackageDB h3)) (selectNewest L requestedPackages pkg))
                               (h3 ! fst (NewPackageDB h))
                               (snd (NewPackageDB h3))) of
                       None \<Rightarrow> None
                     | Some h4 \<Rightarrow>
                         if stillSelected L requestedPackages (h4 ! fst (NewPackageDB h3))
                         then Some (Inr (fst (NewPackageDB h3)), h4)
                         else Some (Inl NotSelected, h4))))))"










text \<open>Two heaps agree everywhere but at one address; a heap extends another when every
  address of the first still holds the same database.\<close>

definition unchanged_except :: "nat \<Rightarrow> heap \<Rightarrow> heap \<Rightarrow> bool" where
  "unchanged_except a h h' = (length h' = length h \<and> (\<forall>b. b \<noteq> a \<longrightarrow> h' ! b = h ! b))"

definition extends :: "heap \<Rightarrow> heap \<Rightarrow> bool" where
  "extends h h' = (length h \<le> length h' \<and> (\<forall>b<length h. h' ! b = h ! b))"


section \<open>Sources and components\<close>

text \<open>
  The packages \<^verbatim>\<open>internal/source\<close> and \<^verbatim>\<open>internal/util\<close> read byte streams from the network.
  A stream is what a Go \<^verbatim>\<open>io.Reader\<close> yields: its bytes, and the error that ends it
  (\<^verbatim>\<open>io.EOF\<close> at a regular end). A byte is a \<open>char\<close>.
\<close>

datatype io_error = EOF | Failure string

record stream =
  content :: string
  ending :: io_error

text \<open>The constructors of the decompressing readers, \<^verbatim>\<open>gzip.NewReader\<close> of the standard
  library and \<^verbatim>\<open>xz.NewReader\<close> of github.com/ulikunitz/xz, are parameters: each returns
  an error or the stream of the decompressed bytes.\<close>

record codecs =
  gzip_NewReader :: "stream \<Rightarrow> io_error + stream"
  xz_NewReader :: "stream \<Rightarrow> io_error + stream"

text \<open>\<^verbatim>\<open>bufio.Reader.Peek(n)\<close>: the next \<open>n\<close> bytes without consuming them, or the error
  that ends the stream when it yields fewer.\<close>

definition Peek :: "nat \<Rightarrow> stream \<Rightarrow> io_error + string" where
  "Peek n r = (if length (content r) < n then Inl (ending r) else Inr (take n (content r)))"

definition HasPrefix :: "string \<Rightarrow> string \<Rightarrow> bool" where
  "HasPrefix s prefix = (take (length prefix) s = prefix)"

definition TrimPrefix :: "string \<Rightarrow> string \<Rightarrow> string" where
  "TrimPrefix s prefix = (if HasPrefix s prefix then drop (length prefix) s else s)"

text \<open>\<^verbatim>\<open>util.Decompress\<close> (internal/util/decompressor.go).\<close>

definition Decompress :: "codecs \<Rightarrow> stream \<Rightarrow> io_error + stream" where
  "Decompress C r =
     (case Peek 8 r of
        Inl err \<Rightarrow> Inl err
      | Inr buf \<Rightarrow>
          if HasPrefix buf [CHR 0x1F, CHR 0x8B] then gzip_NewReader C r
          else if HasPrefix buf [CHR 0xFD, CHR 0x37, CHR 0x7A, CHR 0x58, CHR 0x5A, CHR 0x00] then
            (case xz_NewReader C r of Inl err \<Rightarrow> Inl err | Inr xzReader \<Rightarrow> Inr xzReader)
          else Inr r)"

text \<open>A \<^verbatim>\<open>url.URL\<close>, as far as the code uses it: the text before the path and the path;
  \<^verbatim>\<open>String()\<close> joins the two (escaping is not modelled). An HTTP response.\<close>

record url =
  Origin :: string
  Path :: string

definition url_String :: "url \<Rightarrow> string" where
  "url_String u = Origin u @ Path u"

record response =
  StatusCode :: nat
  Status :: string
  Body :: stream

text \<open>A \<^verbatim>\<open>deb822.Decoder\<close>: the signer found by \<^verbatim>\<open>NewDecoder\<close>, if any, and the input it
  decodes. A \<^verbatim>\<open>types.Release\<close>, with the result of its method \<^verbatim>\<open>SHA256Sums()\<close>; the Go map
  is an association list with distinct keys.\<close>

record decoder =
  Signer :: "string option"
  input :: stream

record release =
  Release_Architectures :: "arch list"
  Release_Components :: "string list"
  Release_SHA256Sums :: "io_error + (string \<times> string) list"

text \<open>What the code takes from outside the repository's sources: the standard library
  (\<^verbatim>\<open>url.Parse\<close>, \<^verbatim>\<open>path.Join\<close>, \<^verbatim>\<open>http.NewRequestWithContext\<close>, \<^verbatim>\<open>http.Client.Do\<close>,
  \<^verbatim>\<open>sha256\<close>), the decompressors, how much of a body the readers draw, and the package
  \<^verbatim>\<open>internal/deb822\<close>.\<close>

record env =
  url_Parse :: "string \<Rightarrow> io_error + url"
  path_Join :: "string list \<Rightarrow> string"
  NewRequest :: "string \<Rightarrow> io_error + string"
  Do :: "string \<Rightarrow> io_error + response"
  decompressors :: codecs
  sha256 :: "string \<Rightarrow> string"
  drawn :: "stream \<Rightarrow> string"
  NewDecoder :: "stream \<Rightarrow> io_error + decoder"
  Decode_Packages :: "decoder \<Rightarrow> io_error + package list"
  Decode_Release :: "decoder \<Rightarrow> io_error + release"

text \<open>\<^verbatim>\<open>source.Component\<close> (internal/source/component.go).\<close>

record component =
  Component_Name :: string
  Arch :: arch
  URL :: url
  Component_SHA256Sums :: "(string \<times> string) list"
  sourceURL :: url

datatype attempt_error =
    DownloadFailed string io_error
  | BadStatus string string
  | DecompressFailed string io_error
  | CreateDecoderFailed io_error
  | UnmarshalFailed string io_error
  | VerifyFailed string

datatype source_error =
    ParseComponentURL io_error
  | ParseSourceURL io_error
  | CreateRequest io_error
  | PackagesUnavailable "attempt_error list"
  | DownloadInRelease io_error
  | InReleaseStatus string
  | CreateReleaseDecoder io_error
  | NotSigned
  | UnmarshalInRelease io_error
  | SHA256SumsFailed io_error

text \<open>\<^verbatim>\<open>HashReader.Verify(expected)\<close>: the SHA-256 of the bytes that have been drawn from the
  body through the \<^verbatim>\<open>HashReader\<close> when the decoder has returned (\<open>drawn\<close>, the whole body when
  the readers behind it read to its end), against the expected bytes, which are empty (a nil
  slice) when the component's table has no entry for the file.\<close>

definition Verify :: "env \<Rightarrow> stream \<Rightarrow> string option \<Rightarrow> bool" where
  "Verify E body expected =
     (sha256 E (drawn E body) = (case expected of None \<Rightarrow> [] | Some digest \<Rightarrow> digest))"

definition add_URL :: "string \<Rightarrow> package \<Rightarrow> package" where
  "add_URL u p =
     Pkg (Package p) (Version p) (Architecture p) (Provides p) (Depends p) (PreDepends p)
       (Priority p) (Filename p) (URLs p @ [u]) (IsVirtual p) (Providers p)"

text \<open>One iteration of the loop of \<^verbatim>\<open>Component.Packages\<close>: it returns from the function
  with an error, or continues with the next candidate after recording a cause, or returns the
  package list.\<close>

datatype outcome = Abort source_error | Continue attempt_error | Return "package list"

definition candidateURL :: "env \<Rightarrow> url \<Rightarrow> string \<Rightarrow> string" where
  "candidateURL E packagesURL name =
     url_String (packagesURL\<lparr>Path := path_Join E [Path packagesURL, name]\<rparr>)"

definition withPackageURLs :: "env \<Rightarrow> url \<Rightarrow> package list \<Rightarrow> package list" where
  "withPackageURLs E packageURL packageList =
     map (\<lambda>p. add_URL (url_String (packageURL\<lparr>Path := path_Join E [Path packageURL, Filename p]\<rparr>)) p)
       packageList"

definition tryCandidate :: "env \<Rightarrow> component \<Rightarrow> string \<Rightarrow> outcome" where
  "tryCandidate E c name =
     (case url_Parse E (url_String (URL c)) of
        Inl err \<Rightarrow> Abort (ParseComponentURL err)
      | Inr packagesURL \<Rightarrow>
     (case NewRequest E (candidateURL E packagesURL name) of
        Inl err \<Rightarrow> Abort (CreateRequest err)
      | Inr req \<Rightarrow>
     (case Do E req of
        Inl err \<Rightarrow> Continue (DownloadFailed name err)
      | Inr resp \<Rightarrow>
     if StatusCode resp \<noteq> 200 then Continue (BadStatus name (Status resp))
     else
     (case Decompress (decompressors E) (Body resp) of
        Inl err \<Rightarrow> Continue (DecompressFailed name err)
      | Inr dr \<Rightarrow>
     (case NewDecoder E dr of
        Inl err \<Rightarrow> Continue (CreateDecoderFailed err)
      | Inr dec \<Rightarrow>
     (case Decode_Packages E dec of
        Inl err \<Rightarrow> Continue (UnmarshalFailed name err)
      | Inr packageList \<Rightarrow>
     if \<not> Verify E (Body resp) (map_of (Component_SHA256Sums c) name) then Continue (VerifyFailed name)
     else
     (case url_Parse E (url_String (sourceURL c)) of
        Inl err \<Rightarrow> Abort (ParseSourceURL err)
      | Inr packageURL \<Rightarrow> Return (withPackageURLs E packageURL packageList))))))))"

fun tryCandidates :: "env \<Rightarrow> component \<Rightarrow> string list \<Rightarrow> attempt_error list \<Rightarrow> source_error + package list" where
  "tryCandidates E c [] errs = Inl (PackagesUnavailable errs)"
| "tryCandidates E c (name # names) errs =
     (case tryCandidate E c name of
        Abort err \<Rightarrow> Inl err
      | Continue err \<Rightarrow> tryCandidates E c names (errs @ [err])
      | Return packageList \<Rightarrow> Inr packageList)"

definition Packages :: "env \<Rightarrow> component \<Rightarrow> source_error + package list" where
  "Packages E c = tryCandidates E c [''Packages.xz'', ''Packages.gz'', ''Packages''] []"

text \<open>\<^verbatim>\<open>source.Source\<close> and \<^verbatim>\<open>Source.Components\<close> (internal/source/source.go). The fields
  \<^verbatim>\<open>httpClient\<close> and \<^verbatim>\<open>keyring\<close> are part of the environment.\<close>

record source =
  source_URL :: url
  distribution :: string
  components :: "string list"

definition defaultComponents :: "string list" where
  "defaultComponents = [''main'']"

text \<open>\<^verbatim>\<open>path.Base\<close>: the last element of a path, after removing trailing slashes.\<close>

definition stripSlashes :: "string \<Rightarrow> string" where
  "stripSlashes p = rev (dropWhile (\<lambda>c. c = CHR ''/'') (rev p))"

definition path_Base :: "string \<Rightarrow> string" where
  "path_Base p =
     (if p = [] then ''.''
      else if stripSlashes p = [] then ''/''
      else rev (takeWhile (\<lambda>c. c \<noteq> CHR ''/'') (rev (stripSlashes p))))"

text \<open>The table of one component: the loop over \<^verbatim>\<open>releaseSHA256Sums\<close>. Go ranges over the
  map in an unspecified order; when two paths of the release get the same key, which digest the
  key keeps is not determined, and the model keeps both entries in the order of the release.\<close>

definition componentSHA256Sums :: "string \<Rightarrow> (string \<times> string) list \<Rightarrow> (string \<times> string) list" where
  "componentSHA256Sums componentDir releaseSHA256Sums =
     map (\<lambda>(filename, digest). (TrimPrefix filename (componentDir @ ''/''), digest))
       (filter (\<lambda>(filename, digest). HasPrefix filename componentDir) releaseSHA256Sums)"

definition makeComponent :: "env \<Rightarrow> source \<Rightarrow> (string \<times> string) list \<Rightarrow> url \<Rightarrow> string \<Rightarrow> arch \<Rightarrow> component" where
  "makeComponent E s releaseSHA256Sums componentURL cname a =
     \<lparr>Component_Name = cname,
      Arch = a,
      URL = componentURL\<lparr>Path := path_Join E [Path componentURL, ''dists'', distribution s, cname, ''binary-'' @ a]\<rparr>,
      Component_SHA256Sums =
        componentSHA256Sums (path_Join E [path_Base cname, ''binary-'' @ a]) releaseSHA256Sums,
      sourceURL = source_URL s\<rparr>"

text \<open>The two nested loops that build the result; \<^verbatim>\<open>url.Parse\<close> is called once per pair.\<close>

fun buildComponents :: "env \<Rightarrow> source \<Rightarrow> (string \<times> string) list \<Rightarrow> (string \<times> arch) list \<Rightarrow> source_error + component list" where
  "buildComponents E s sums [] = Inr []"
| "buildComponents E s sums ((cname, a) # pairs) =
     (case url_Parse E (url_String (source_URL s)) of
        Inl err \<Rightarrow> Inl (ParseSourceURL err)
      | Inr componentURL \<Rightarrow>
          (case buildComponents E s sums pairs of
             Inl err \<Rightarrow> Inl err
           | Inr rest \<Rightarrow> Inr (makeComponent E s sums componentURL cname a # rest)))"

definition Components :: "lib \<Rightarrow> env \<Rightarrow> source \<Rightarrow> arch \<Rightarrow> source_error + component list" where
  "Components L E s targetArch =
     (case url_Parse E (url_String (source_URL s)) of
        Inl err \<Rightarrow> Inl (ParseSourceURL err)
      | Inr inReleaseURL \<Rightarrow>
     (case NewRequest E (url_String (inReleaseURL\<lparr>Path := path_Join E [Path inReleaseURL, ''dists'', distribution s, ''InRelease'']\<rparr>)) of
        Inl err \<Rightarrow> Inl (CreateRequest err)
      | Inr req \<Rightarrow>
     (case Do E req of
        Inl err \<Rightarrow> Inl (DownloadInRelease err)
      | Inr resp \<Rightarrow>
     if StatusCode resp \<noteq> 200 then Inl (InReleaseStatus (Status resp))
     else
     (case NewDecoder E (Body resp) of
        Inl err \<Rightarrow> Inl (CreateReleaseDecoder err)
      | Inr dec \<Rightarrow>
     if Signer dec = None then Inl NotSigned
     else
     (case Decode_Release E dec of
        Inl err \<Rightarrow> Inl (UnmarshalInRelease err)
      | Inr rel \<Rightarrow>
     (let availableArchitectures =
            filter (\<lambda>releaseArch. arch_Is L releaseArch ''all'' \<or> arch_Is L releaseArch targetArch)
              (Release_Architectures rel);
          availableComponents =
            filter (\<lambda>cname. cname \<in> set defaultComponents \<or> cname \<in> set (components s)) (Release_Components rel)
      in if availableArchitectures = [] then Inr []
         else if availableComponents = [] then Inr []
         else
           (case Release_SHA256Sums rel of
              Inl err \<Rightarrow> Inl (SHA256SumsFailed err)
            | Inr releaseSHA256Sums \<Rightarrow>
                buildComponents E s releaseSHA256Sums
                  (List.product availableComponents availableArchitectures))))))))"

section \<open>Sample inputs\<close>

text \<open>Small package lists on which the model is run.\<close>

definition upstream_version :: "string \<Rightarrow> version" where
  "upstream_version u = \<lparr>Epoch = 0, Upstream = u, Revision = []\<rparr>"

definition unversioned :: "string list \<Rightarrow> dependency" where
  "unversioned ns = \<lparr>Relations = map (\<lambda>n. \<lparr>Possibilities = [\<lparr>Name = n, VersionRel = None\<rparr>]\<rparr>) ns\<rparr>"

definition concretePkg :: "string \<Rightarrow> string \<Rightarrow> string list \<Rightarrow> string list \<Rightarrow> string \<Rightarrow> package" where
  "concretePkg name v provides depends priority =
     Pkg name (upstream_version v) ''amd64'' (unversioned provides) (unversioned depends) no_Dependency
       priority [] [] False []"

definition awk_pool :: PackageDB where
  "awk_pool = AddAll sample_lib
     [concretePkg ''gawk'' ''5.2'' [''awk''] [] ''optional'',
      concretePkg ''mawk'' ''1.3'' [''awk''] [] ''required''] []"

definition awk_virtual :: package where
  "awk_virtual = hd (Get sample_lib awk_pool ''awk'')"

definition bash_pool :: PackageDB where
  "bash_pool = AddAll sample_lib
     [concretePkg ''bash'' ''5.1'' [] [''libc6''] ''required'',
      concretePkg ''bash'' ''5.2'' [] [''libc6'', ''awk''] ''required'',
      concretePkg ''libc6'' ''2.36'' [] [] ''optional'',
      concretePkg ''gawk'' ''5.2'' [''awk''] [''libsigsegv''] ''optional'',
      concretePkg ''mawk'' ''1.3'' [''awk''] [] ''required''] []"



definition gzip_magic :: string where
  "gzip_magic = [CHR 0x1F, CHR 0x8B]"

definition xz_magic :: string where
  "xz_magic = [CHR 0xFD, CHR 0x37, CHR 0x7A, CHR 0x58, CHR 0x5A, CHR 0x00]"



text \<open>Stand-ins for the decompressors, to run the model: each drops the magic bytes.\<close>

definition sample_codecs :: codecs where
  "sample_codecs =
     \<lparr>gzip_NewReader = (\<lambda>r. Inr (r\<lparr>content := drop 2 (content r)\<rparr>)),
      xz_NewReader = (\<lambda>r. Inr (r\<lparr>content := drop 6 (content r)\<rparr>))\<rparr>"

text \<open>A stand-in for the world outside, to run the model: a mirror at \<^verbatim>\<open>http://mirror\<close> that
  serves the files of a table and answers 404 for every other path; \<^verbatim>\<open>path.Join\<close> on
  elements that are already clean; a digest that is the body itself behind a mark; readers
  that draw the whole body; a decoder that accepts every key and reads a body
  \<^verbatim>\<open>Filename: f\<close> as one package.\<close>

fun join_slash :: "string list \<Rightarrow> string" where
  "join_slash [] = []"
| "join_slash [x] = x"
| "join_slash (x # y # ys) = (if x = [] then join_slash (y # ys) else x @ ''/'' @ join_slash (y # ys))"

definition mirror_Parse :: "string \<Rightarrow> io_error + url" where
  "mirror_Parse s =
     (if HasPrefix s ''http://mirror'' then Inr \<lparr>Origin = ''http://mirror'', Path = drop 13 s\<rparr>
      else Inl (Failure ''parse''))"

definition serve :: "(string \<times> string) list \<Rightarrow> string \<Rightarrow> io_error + response" where
  "serve files req =
     (case map_of files req of
        None \<Rightarrow> Inr \<lparr>StatusCode = 404, Status = ''404 Not Found'', Body = \<lparr>content = [], ending = EOF\<rparr>\<rparr>
      | Some body \<Rightarrow> Inr \<lparr>StatusCode = 200, Status = ''200 OK'', Body = \<lparr>content = body, ending = EOF\<rparr>\<rparr>)"

definition filePkg :: "string \<Rightarrow> package" where
  "filePkg f = Pkg [] zero_Version zero_Arch no_Dependency no_Dependency no_Dependency [] f [] False []"

definition sample_Decode :: "decoder \<Rightarrow> io_error + package list" where
  "sample_Decode dec =
     (if HasPrefix (content (input dec)) ''Filename: '' then Inr [filePkg (drop 10 (content (input dec)))]
      else Inl (Failure ''decode''))"

definition mips_release :: release where
  "mips_release =
     \<lparr>Release_Architectures = [''mips'', ''mipsel''],
      Release_Components = [''main''],
      Release_SHA256Sums = Inr [(''main/binary-mips/Packages.gz'', ''d1''),
                                (''main/binary-mipsel/Packages.gz'', ''d2'')]\<rparr>"

definition sample_files :: "(string \<times> string) list" where
  "sample_files =
     [(''http://mirror/debian/dists/stable/InRelease'', ''signed release''),
      (''http://mirror/debian/dists/stable/main/binary-amd64/Packages.gz'',
         gzip_magic @ ''Filename: pool/main/b/bash.deb''),
      (''http://mirror/debian/dists/stable/contrib/binary-amd64/Packages.xz'',
         xz_magic @ ''Filename: pool/contrib/z/zip.deb''),
      (''http://mirror/debian/dists/stable/non-free/binary-amd64/Packages.gz'',
         gzip_magic @ ''Filename: pool/non-free/u/unrar.deb''),
      (''http://mirror/debian/dists/stable/non-free/binary-amd64/Packages'',
         ''Filename: pool/non-free/u/unrar.deb''),
      (''http://mirror/debian/dists/stable/extra/binary-amd64/Packages.gz'',
         gzip_magic @ ''not a control file''),
      (''http://mirror/debian/dists/stable/extra/binary-amd64/Packages'', ''a: b'')]"

definition sample_env :: env where
  "sample_env =
     \<lparr>url_Parse = mirror_Parse,
      path_Join = join_slash,
      NewRequest = Inr,
      Do = serve sample_files,
      decompressors = sample_codecs,
      sha256 = (\<lambda>body. ''#'' @ body),
      drawn = content,
      NewDecoder = (\<lambda>r. Inr \<lparr>Signer = Some ''key'', input = r\<rparr>),
      Decode_Packages = sample_Decode,
      Decode_Release = (\<lambda>dec. Inr mips_release)\<rparr>"

definition mirror :: url where
  "mirror = \<lparr>Origin = ''http://mirror'', Path = ''/debian''\<rparr>"

definition sample_source :: source where
  "sample_source = \<lparr>source_URL = mirror, distribution = ''stable'', components = []\<rparr>"






text \<open>An entry at a glance: name, upstream version, the virtual flag, the names of its
  providers.\<close>

definition brief :: "package \<Rightarrow> string \<times> string \<times> bool \<times> string list" where
  "brief p = (Package p, Upstream (Version p), IsVirtual p, map Package (Providers p))"

definition versioned_provides :: "(string \<times> string) list \<Rightarrow> dependency" where
  "versioned_provides ps =
     \<lparr>Relations = map (\<lambda>(n, v). \<lparr>Possibilities =
        [\<lparr>Name = n, VersionRel = Some \<lparr>Operator = ''='', Number = upstream_version v\<rparr>\<rparr>]\<rparr>) ps\<rparr>"

text \<open>A package \<open>n\<close> 1.0, and a package \<open>z\<close> with \<^verbatim>\<open>Provides: n (= 0.5), n (= 2.0)\<close>.\<close>

definition n_pool :: PackageDB where
  "n_pool = AddAll sample_lib
     [concretePkg ''n'' ''1.0'' [] [] ''optional'',
      Pkg ''z'' (upstream_version ''1.0'') ''amd64'' (versioned_provides [(''n'', ''0.5''), (''n'', ''2.0'')])
        no_Dependency no_Dependency ''optional'' [] [] False []] []"

text \<open>The package \<open>gawk\<close> 5.2 as two sources may describe it: with \<^verbatim>\<open>Provides: awk\<close> and
  without.\<close>

definition gawk_awk :: package where
  "gawk_awk = concretePkg ''gawk'' ''5.2'' [''awk''] [] ''optional''"

definition gawk_plain :: package where
  "gawk_plain = concretePkg ''gawk'' ''5.2'' [] [] ''optional''"

section \<open>Auxiliary facts about lists\<close>

lemma find_Some_in: "find P xs = Some x \<Longrightarrow> x \<in> set xs \<and> P x"
  by (induction xs) (auto split: if_splits)

lemma find_None_all: "find P xs = None \<longleftrightarrow> (\<forall>x\<in>set xs. \<not> P x)"
  by (induction xs) auto

lemma set_map_filter: "set (List.map_filter f xs) = {y. \<exists>x\<in>set xs. f x = Some y}"
  by (induction xs) (auto simp: List.map_filter_simps split: option.splits)

lemma takeWhile_all: "list_all P xs \<Longrightarrow> takeWhile P xs = xs"
  by (induction xs) auto

lemma dropWhile_all: "list_all P xs \<Longrightarrow> dropWhile P xs = []"
  by (induction xs) auto

lemma takeWhile_none: "list_all P xs \<Longrightarrow> takeWhile (\<lambda>x. \<not> P x) xs = []"
  by (cases xs) auto

lemma dropWhile_none: "list_all P xs \<Longrightarrow> dropWhile (\<lambda>x. \<not> P x) xs = xs"
  by (cases xs) auto

section \<open>Version comparison\<close>

lemma compare_string_Nil: "compare_string [] [] = 0"
  by (subst compare_string.simps) simp

lemma number_Nil: "number [] = 0"
  by (simp add: number_def)

lemma compare_string_unfold:
  "compare_string a b =
     (if compare_nondigit (nondigits a) (nondigits b) \<noteq> 0
        then compare_nondigit (nondigits a) (nondigits b)
      else if digits_value a < digits_value b then - 1
      else if digits_value b < digits_value a then 1
      else compare_string (remainder a) (remainder b))"
proof (cases "a = [] \<and> b = []")
  case True
  then show ?thesis
    by (simp add: compare_string_Nil nondigits_def digits_value_def remainder_def number_Nil)
next
  case False
  show ?thesis
    unfolding nondigits_def digits_value_def remainder_def
    using compare_string.simps[of a b] False by simp
qed

lemma remainder_le: "length (remainder a) \<le> length a"
  unfolding remainder_def by (rule length_dropWhile_le')

lemma remainder_less: "a \<noteq> [] \<Longrightarrow> length (remainder a) < length a"
  unfolding remainder_def by (rule length_dropWhile_alt)

lemma order_nonzero: "order c \<noteq> 0"
  by (auto simp: order_def is_letter_def less_eq_char_def)

lemma order_inj: "order c = order d \<Longrightarrow> c = d"
proof -
  assume a: "order c = order d"
  have 1: "int (of_char c) + 256 \<noteq> int (of_char d)"
    using nat_of_char_less_256[of d] by linarith
  have 2: "int (of_char d) + 256 \<noteq> int (of_char c)"
    using nat_of_char_less_256[of c] by linarith
  show ?thesis using a 1 2 by (auto simp: order_def split: if_splits)
qed

lemma compare_nondigit_range: "compare_nondigit a b \<in> {- 1, 0, 1}"
  by (induction a b rule: compare_nondigit.induct) auto

lemma compare_nondigit_refl: "compare_nondigit a a = 0"
  by (induction a) auto

lemma compare_nondigit_eq: "compare_nondigit a b = 0 \<Longrightarrow> a = b"
  by (induction a b rule: compare_nondigit.induct) (auto split: if_splits dest: order_inj)

lemma compare_nondigit_antisym: "compare_nondigit b a = - compare_nondigit a b"
  by (induction a b rule: compare_nondigit.induct) auto

lemma compare_nondigit_trans:
  "compare_nondigit a b < 0 \<Longrightarrow> compare_nondigit b c < 0 \<Longrightarrow> compare_nondigit a c < 0"
proof (induction a b arbitrary: c rule: compare_nondigit.induct)
  case 1
  then show ?case by simp
next
  case (2 a as)
  then show ?case by (cases c) (auto split: if_splits)
next
  case (3 b bs)
  then show ?case using order_nonzero[of b] by (cases c) (auto split: if_splits)
next
  case (4 a as b bs)
  show ?case
  proof (cases c)
    case Nil
    have "order a \<le> order b" using "4.prems"(1) by (simp split: if_splits)
    moreover have "order b < 0" using "4.prems"(2) Nil by (simp split: if_splits)
    ultimately show ?thesis using Nil by simp
  next
    case (Cons z zs)
    have ab: "order a \<le> order b" using "4.prems"(1) by (simp split: if_splits)
    have bz: "order b \<le> order z" using "4.prems"(2) Cons by (simp split: if_splits)
    show ?thesis
    proof (cases "order a < order z")
      case True
      then show ?thesis using Cons by simp
    next
      case False
      then have e1: "order a = order b" and e2: "order b = order z" using ab bz by auto
      have r1: "compare_nondigit as bs < 0" using "4.prems"(1) e1 by simp
      have r2: "compare_nondigit bs zs < 0" using "4.prems"(2) Cons e2 by simp
      have "compare_nondigit as zs < 0" using "4.IH"[of zs] e1 r1 r2 by simp
      then show ?thesis using Cons e1 e2 by simp
    qed
  qed
qed

lemma compare_string_range: "compare_string a b \<in> {- 1, 0, 1}"
proof (induction a b rule: compare_string.induct)
  case (1 a b)
  show ?case
  proof (cases "a = [] \<and> b = []")
    case True
    then show ?thesis by (simp add: compare_string_Nil)
  next
    case False
    then show ?thesis
      using 1 compare_nondigit_range[of "takeWhile (\<lambda>c. \<not> is_digit c) a" "takeWhile (\<lambda>c. \<not> is_digit c) b"]
      by (subst compare_string.simps) auto
  qed
qed

lemma compare_string_refl: "compare_string a a = 0"
proof (induction "length a" arbitrary: a rule: less_induct)
  case less
  show ?case
  proof (cases "a = []")
    case True
    then show ?thesis by (simp add: compare_string_Nil)
  next
    case False
    then have "compare_string (remainder a) (remainder a) = 0"
      using less remainder_less by blast
    then show ?thesis
      by (subst compare_string_unfold) (simp add: compare_nondigit_refl)
  qed
qed

lemma compare_string_antisym: "compare_string b a = - compare_string a b"
proof (induction "length a + length b" arbitrary: a b rule: less_induct)
  case less
  show ?case
  proof (cases "a = [] \<and> b = []")
    case True
    then show ?thesis by (simp add: compare_string_Nil)
  next
    case False
    then have "length (remainder a) + length (remainder b) < length a + length b"
      using remainder_less[of a] remainder_less[of b] remainder_le[of a] remainder_le[of b]
      by (cases "a = []"; cases "b = []") auto
    then have IH: "compare_string (remainder b) (remainder a) = - compare_string (remainder a) (remainder b)"
      using less by blast
    have n: "compare_nondigit (nondigits b) (nondigits a) = - compare_nondigit (nondigits a) (nondigits b)"
      by (rule compare_nondigit_antisym)
    show ?thesis
      by (subst compare_string_unfold[of b a], subst compare_string_unfold[of a b])
         (auto simp: n IH)
  qed
qed

lemma compare_string_trans:
  "compare_string a b \<le> 0 \<Longrightarrow> compare_string b c \<le> 0 \<Longrightarrow> compare_string a c \<le> 0"
proof (induction "length a + length b + length c" arbitrary: a b c rule: less_induct)
  case less
  show ?case
  proof (cases "a = [] \<and> b = [] \<and> c = []")
    case True
    then show ?thesis by (simp add: compare_string_Nil)
  next
    case False
    then have "length (remainder a) + length (remainder b) + length (remainder c)
                 < length a + length b + length c"
      using remainder_less[of a] remainder_less[of b] remainder_less[of c]
        remainder_le[of a] remainder_le[of b] remainder_le[of c]
      by (cases "a = []"; cases "b = []"; cases "c = []") auto
    then have IH: "compare_string (remainder a) (remainder b) \<le> 0 \<Longrightarrow>
                   compare_string (remainder b) (remainder c) \<le> 0 \<Longrightarrow>
                   compare_string (remainder a) (remainder c) \<le> 0"
      using less(1) by blast
    let ?x = "compare_nondigit (nondigits a) (nondigits b)"
    let ?y = "compare_nondigit (nondigits b) (nondigits c)"
    let ?z = "compare_nondigit (nondigits a) (nondigits c)"
    have ab: "compare_string a b =
        (if ?x \<noteq> 0 then ?x else if digits_value a < digits_value b then - 1
         else if digits_value b < digits_value a then 1
         else compare_string (remainder a) (remainder b))"
      by (rule compare_string_unfold)
    have bc: "compare_string b c =
        (if ?y \<noteq> 0 then ?y else if digits_value b < digits_value c then - 1
         else if digits_value c < digits_value b then 1
         else compare_string (remainder b) (remainder c))"
      by (rule compare_string_unfold)
    have ac: "compare_string a c =
        (if ?z \<noteq> 0 then ?z else if digits_value a < digits_value c then - 1
         else if digits_value c < digits_value a then 1
         else compare_string (remainder a) (remainder c))"
      by (rule compare_string_unfold)
    have x: "?x \<le> 0" using less(2) ab by (auto split: if_splits)
    have y: "?y \<le> 0" using less(3) bc by (auto split: if_splits)
    show ?thesis
    proof (cases "?x = 0")
      case False
      then have xl: "?x < 0" using x by simp
      show ?thesis
      proof (cases "?y = 0")
        case False
        then have "?z < 0" using xl y compare_nondigit_trans[of "nondigits a" "nondigits b" "nondigits c"]
          by simp
        then show ?thesis using ac by simp
      next
        case True
        then have "nondigits b = nondigits c" by (rule compare_nondigit_eq)
        then have "?z < 0" using xl by simp
        then show ?thesis using ac by simp
      qed
    next
      case True
      then have eqab: "nondigits a = nondigits b" by (rule compare_nondigit_eq)
      show ?thesis
      proof (cases "?y = 0")
        case False
        then have "?z < 0" using y eqab by simp
        then show ?thesis using ac by simp
      next
        case True2: True
        then have z: "?z = 0" using eqab by simp
        have dab: "digits_value a \<le> digits_value b" using less(2) ab True by (auto split: if_splits)
        have dbc: "digits_value b \<le> digits_value c" using less(3) bc True2 by (auto split: if_splits)
        show ?thesis
        proof (cases "digits_value a < digits_value c")
          case True
          then show ?thesis using ac z by simp
        next
          case False
          then have e1: "digits_value a = digits_value b" and e2: "digits_value b = digits_value c"
            using dab dbc by auto
          have r1: "compare_string (remainder a) (remainder b) \<le> 0"
            using less(2) ab True e1 by simp
          have r2: "compare_string (remainder b) (remainder c) \<le> 0"
            using less(3) bc True2 e2 by simp
          show ?thesis using ac z e1 e2 IH[OF r1 r2] by simp
        qed
      qed
    qed
  qed
qed

lemma compare_refl: "compare a a = 0"
  by (simp add: compare_def compare_string_refl)

lemma compare_antisym: "compare b a = - compare a b"
  using compare_string_antisym[of "Upstream a" "Upstream b"]
        compare_string_antisym[of "Revision a" "Revision b"]
  by (auto simp: compare_def)

lemma compare_string_trans_eq:
  "compare_string a b = 0 \<Longrightarrow> compare_string b c = 0 \<Longrightarrow> compare_string a c = 0"
proof -
  assume ab: "compare_string a b = 0" and bc: "compare_string b c = 0"
  have 1: "compare_string a c \<le> 0" using compare_string_trans[of a b c] ab bc by simp
  have "compare_string c b \<le> 0" "compare_string b a \<le> 0"
    using ab bc compare_string_antisym[of b c] compare_string_antisym[of a b] by simp_all
  then have "compare_string c a \<le> 0" by (rule compare_string_trans)
  then show ?thesis using 1 compare_string_antisym[of a c] by simp
qed

lemma compare_string_trans_lt:
  "compare_string a b \<le> 0 \<Longrightarrow> compare_string b c \<le> 0 \<Longrightarrow>
     compare_string a b < 0 \<or> compare_string b c < 0 \<Longrightarrow> compare_string a c < 0"
proof (rule ccontr)
  assume ab: "compare_string a b \<le> 0" and bc: "compare_string b c \<le> 0"
    and st: "compare_string a b < 0 \<or> compare_string b c < 0" and n: "\<not> compare_string a c < 0"
  have ca: "compare_string c a \<le> 0" using n compare_string_antisym[of a c] by simp
  have "compare_string b a \<le> 0" using compare_string_trans[OF bc ca] .
  moreover have "compare_string c b \<le> 0" using compare_string_trans[OF ca ab] .
  ultimately show False
    using st compare_string_antisym[of a b] compare_string_antisym[of b c] by auto
qed

lemma compare_trans: "compare a b \<le> 0 \<Longrightarrow> compare b c \<le> 0 \<Longrightarrow> compare a c \<le> 0"
proof -
  assume ab: "compare a b \<le> 0" and bc: "compare b c \<le> 0"
  let ?u = "\<lambda>x y. compare_string (Upstream x) (Upstream y)"
  let ?r = "\<lambda>x y. compare_string (Revision x) (Revision y)"
  have eab: "Epoch a \<le> Epoch b" using ab by (auto simp: compare_def split: if_splits)
  have ebc: "Epoch b \<le> Epoch c" using bc by (auto simp: compare_def split: if_splits)
  show ?thesis
  proof (cases "Epoch a < Epoch c")
    case True
    then show ?thesis by (simp add: compare_def)
  next
    case False
    then have e1: "Epoch a = Epoch b" and e2: "Epoch b = Epoch c" using eab ebc by auto
    have uab: "?u a b \<le> 0" using ab e1 by (auto simp: compare_def split: if_splits)
    have ubc: "?u b c \<le> 0" using bc e2 by (auto simp: compare_def split: if_splits)
    show ?thesis
    proof (cases "?u a b < 0 \<or> ?u b c < 0")
      case True
      then have "?u a c < 0" using compare_string_trans_lt[OF uab ubc] by blast
      then show ?thesis using e1 e2 by (simp add: compare_def)
    next
      case False
      then have z1: "?u a b = 0" and z2: "?u b c = 0" using uab ubc by auto
      then have z: "?u a c = 0" by (rule compare_string_trans_eq)
      have rab: "?r a b \<le> 0" using ab e1 z1 by (simp add: compare_def)
      have rbc: "?r b c \<le> 0" using bc e2 z2 by (simp add: compare_def)
      show ?thesis using compare_string_trans[OF rab rbc] e1 e2 z by (simp add: compare_def)
    qed
  qed
qed


lemma takeWhile_append_all:
  "list_all P xs \<Longrightarrow> ys = [] \<or> \<not> P (hd ys) \<Longrightarrow> takeWhile P (xs @ ys) = xs"
  by (induction xs) (auto simp: takeWhile_eq_Nil_iff hd_conv_nth neq_Nil_conv)

lemma dropWhile_append_all:
  "list_all P xs \<Longrightarrow> ys = [] \<or> \<not> P (hd ys) \<Longrightarrow> dropWhile P (xs @ ys) = ys"
  by (induction xs) (auto simp: dropWhile_eq_self_iff)

lemma segments:
  assumes "list_all (\<lambda>c. \<not> is_digit c) n" and "list_all is_digit d"
      and "d = [] \<longrightarrow> r = []" and "r = [] \<or> \<not> is_digit (hd r)"
  shows "nondigits (n @ d @ r) = n" and "digits_value (n @ d @ r) = number d"
    and "remainder (n @ d @ r) = r"
proof -
  have "d @ r = [] \<or> \<not> \<not> is_digit (hd (d @ r))"
    using assms(2,3) by (cases d) auto
  then have t: "takeWhile (\<lambda>c. \<not> is_digit c) (n @ d @ r) = n"
    and dr: "dropWhile (\<lambda>c. \<not> is_digit c) (n @ d @ r) = d @ r"
    using assms(1) takeWhile_append_all[of "\<lambda>c. \<not> is_digit c" n "d @ r"]
      dropWhile_append_all[of "\<lambda>c. \<not> is_digit c" n "d @ r"] by auto
  have td: "takeWhile is_digit (d @ r) = d" and dd: "dropWhile is_digit (d @ r) = r"
    using assms(2,4) takeWhile_append_all[of is_digit d r] dropWhile_append_all[of is_digit d r]
    by auto
  show "nondigits (n @ d @ r) = n" by (simp only: nondigits_def t)
  show "digits_value (n @ d @ r) = number d" by (simp only: digits_value_def dr td)
  show "remainder (n @ d @ r) = r" by (simp only: remainder_def dr dd)
qed

lemma compare_string_segments:
  assumes "list_all (\<lambda>c. \<not> is_digit c) na" and "list_all is_digit da"
      and "da = [] \<longrightarrow> ra = []" and "ra = [] \<or> \<not> is_digit (hd ra)"
      and "list_all (\<lambda>c. \<not> is_digit c) nb" and "list_all is_digit db"
      and "db = [] \<longrightarrow> rb = []" and "rb = [] \<or> \<not> is_digit (hd rb)"
  shows "compare_string (na @ da @ ra) (nb @ db @ rb) =
           (if compare_nondigit na nb \<noteq> 0 then compare_nondigit na nb
            else if number da < number db then - 1
            else if number db < number da then 1
            else compare_string ra rb)"
  by (subst compare_string_unfold)
     (simp only: segments[OF assms(1-4)] segments[OF assms(5-8)])

lemma compare_nondigit_common_prefix:
  "compare_nondigit (p @ xs) (p @ ys) = compare_nondigit xs ys"
  by (induction p) auto

lemma order_tilde_least: "c \<noteq> CHR ''~'' \<Longrightarrow> order CHR ''~'' < order c"
  by (simp add: order_def)

lemma order_letter_first: "is_letter c \<Longrightarrow> \<not> is_letter d \<Longrightarrow> d \<noteq> CHR ''~'' \<Longrightarrow> order c < order d"
proof -
  assume c: "is_letter c" and d: "\<not> is_letter d" "d \<noteq> CHR ''~''"
  have "\<not> is_letter CHR ''~''" by (simp add: is_letter_def)
  then have n: "c \<noteq> CHR ''~''" using c by auto
  have "int (of_char c) < int (of_char d) + 256"
    using nat_of_char_less_256[of c] by linarith
  then show ?thesis using c d n by (simp add: order_def)
qed

lemma number_leading_zero: "number (CHR ''0'' # s) = number s"
  by (simp add: number_def digit_value_def)

text \<open>
  C5. Version comparison is the Debian order. Epochs decide first, numerically; with equal
  epochs the upstream parts decide, and the revisions only when the upstream parts compare equal.
  A part is compared segment by segment, a segment without digits and then a segment of digits
  in turn: the first pair of segments that differs decides. Segments without digits are compared
  character by character at the first difference, \<^verbatim>\<open>~\<close> sorting before the end of the segment,
  the end before every other character, and letters before the remaining characters; segments
  of digits are compared by their numeric value, so leading zeros are ignored. The comparison is
  reflexive, antisymmetric and transitive, and the four fixtures of the specification compare as
  stated: 1.0 before 1.0-1, 1.0~rc1 before 1.0, 2:1.0 after 1:999, 1.0.0 after 1.0.
\<close>

theorem compare_debian_order:
  "(Epoch a < Epoch b \<longrightarrow> compare a b < 0)
   \<and> (Epoch b < Epoch a \<longrightarrow> 0 < compare a b)
   \<and> (Epoch a = Epoch b \<longrightarrow>
        compare a b = (if compare_string (Upstream a) (Upstream b) \<noteq> 0
                       then compare_string (Upstream a) (Upstream b)
                       else compare_string (Revision a) (Revision b)))
   \<and> (list_all (\<lambda>c. \<not> is_digit c) na \<and> list_all is_digit da
        \<and> (da = [] \<longrightarrow> ra = []) \<and> (ra = [] \<or> \<not> is_digit (hd ra))
        \<and> list_all (\<lambda>c. \<not> is_digit c) nb \<and> list_all is_digit db
        \<and> (db = [] \<longrightarrow> rb = []) \<and> (rb = [] \<or> \<not> is_digit (hd rb)) \<longrightarrow>
        compare_string (na @ da @ ra) (nb @ db @ rb) =
           (if compare_nondigit na nb \<noteq> 0 then compare_nondigit na nb
            else if number da < number db then - 1
            else if number db < number da then 1
            else compare_string ra rb))
   \<and> compare_string [] [] = 0
   \<and> (order x < order y \<longrightarrow> compare_nondigit (p @ x # xs) (p @ y # ys) = - 1)
   \<and> (order y < order x \<longrightarrow> compare_nondigit (p @ x # xs) (p @ y # ys) = 1)
   \<and> compare_nondigit (p @ CHR ''~'' # xs) p = - 1
   \<and> (x \<noteq> CHR ''~'' \<longrightarrow> compare_nondigit p (p @ x # xs) = - 1)
   \<and> compare_nondigit p p = 0
   \<and> (x \<noteq> CHR ''~'' \<longrightarrow> order CHR ''~'' < order x)
   \<and> (is_letter x \<and> \<not> is_letter y \<and> y \<noteq> CHR ''~'' \<longrightarrow> order x < order y)
   \<and> number (CHR ''0'' # s) = number s
   \<and> compare a a = 0
   \<and> compare b a = - compare a b
   \<and> (compare a b \<le> 0 \<and> compare b c \<le> 0 \<longrightarrow> compare a c \<le> 0)
   \<and> compare_text ''1.0'' ''1.0-1'' = Some (- 1)
   \<and> compare_text ''1.0~rc1'' ''1.0'' = Some (- 1)
   \<and> compare_text ''2:1.0'' ''1:999'' = Some 1
   \<and> compare_text ''1.0.0'' ''1.0'' = Some 1"
proof (intro conjI impI)
  assume "Epoch a < Epoch b" then show "compare a b < 0" by (simp add: compare_def)
next
  assume "Epoch b < Epoch a" then show "0 < compare a b" by (simp add: compare_def)
next
  assume "Epoch a = Epoch b"
  then show "compare a b = (if compare_string (Upstream a) (Upstream b) \<noteq> 0
                       then compare_string (Upstream a) (Upstream b)
                       else compare_string (Revision a) (Revision b))"
    by (simp add: compare_def)
next
  assume "list_all (\<lambda>c. \<not> is_digit c) na \<and> list_all is_digit da
        \<and> (da = [] \<longrightarrow> ra = []) \<and> (ra = [] \<or> \<not> is_digit (hd ra))
        \<and> list_all (\<lambda>c. \<not> is_digit c) nb \<and> list_all is_digit db
        \<and> (db = [] \<longrightarrow> rb = []) \<and> (rb = [] \<or> \<not> is_digit (hd rb))"
  then show "compare_string (na @ da @ ra) (nb @ db @ rb) =
           (if compare_nondigit na nb \<noteq> 0 then compare_nondigit na nb
            else if number da < number db then - 1
            else if number db < number da then 1
            else compare_string ra rb)"
    using compare_string_segments[of na da ra nb db rb] by blast
next
  show "compare_string [] [] = 0" by (rule compare_string_Nil)
next
  assume "order x < order y"
  then show "compare_nondigit (p @ x # xs) (p @ y # ys) = - 1"
    by (simp add: compare_nondigit_common_prefix)
next
  assume "order y < order x"
  then show "compare_nondigit (p @ x # xs) (p @ y # ys) = 1"
    by (simp add: compare_nondigit_common_prefix)
next
  have "compare_nondigit (p @ CHR ''~'' # xs) (p @ []) = - 1"
    by (simp only: compare_nondigit_common_prefix) (simp add: order_def)
  then show "compare_nondigit (p @ CHR ''~'' # xs) p = - 1" by simp
next
  assume "x \<noteq> CHR ''~''"
  then have "compare_nondigit (p @ []) (p @ x # xs) = - 1"
    using order_tilde_least[of x] order_nonzero[of x]
    by (simp only: compare_nondigit_common_prefix) (auto simp: order_def split: if_splits)
  then show "compare_nondigit p (p @ x # xs) = - 1" by simp
next
  show "compare_nondigit p p = 0" by (rule compare_nondigit_refl)
next
  assume "x \<noteq> CHR ''~''" then show "order CHR ''~'' < order x" by (rule order_tilde_least)
next
  assume "is_letter x \<and> \<not> is_letter y \<and> y \<noteq> CHR ''~''"
  then show "order x < order y" using order_letter_first by blast
next
  show "number (CHR ''0'' # s) = number s" by (rule number_leading_zero)
next
  show "compare a a = 0" by (rule compare_refl)
next
  show "compare b a = - compare a b" by (rule compare_antisym)
next
  assume "compare a b \<le> 0 \<and> compare b c \<le> 0"
  then show "compare a c \<le> 0" using compare_trans by blast
next
  show "compare_text ''1.0'' ''1.0-1'' = Some (- 1)" by code_simp
  show "compare_text ''1.0~rc1'' ''1.0'' = Some (- 1)" by code_simp
  show "compare_text ''2:1.0'' ''1:999'' = Some 1" by code_simp
  show "compare_text ''1.0.0'' ''1.0'' = Some 1" by code_simp
qed


theorem compare_debian_order_witness:
  "compare \<lparr>Epoch = 1, Upstream = ''999'', Revision = []\<rparr> \<lparr>Epoch = 2, Upstream = ''1.0'', Revision = []\<rparr> < 0
   \<and> 0 < compare \<lparr>Epoch = 2, Upstream = ''1.0'', Revision = []\<rparr> \<lparr>Epoch = 1, Upstream = ''999'', Revision = []\<rparr>
   \<and> compare \<lparr>Epoch = 0, Upstream = ''1.0'', Revision = ''2''\<rparr> \<lparr>Epoch = 0, Upstream = ''2.0'', Revision = ''1''\<rparr> = - 1
   \<and> compare_string ''1.0'' ''1.0.0'' = compare_string ''.0'' ''.0.0''
   \<and> compare_nondigit ''.a'' ''.+'' = - 1
   \<and> compare_nondigit ''.+'' ''.a'' = 1
   \<and> compare_nondigit ''.'' ''.a'' = - 1
   \<and> order CHR ''~'' < order CHR ''a''
   \<and> order CHR ''a'' < order CHR ''+''
   \<and> compare \<lparr>Epoch = 0, Upstream = ''1.0'', Revision = []\<rparr> \<lparr>Epoch = 0, Upstream = ''1.0.1'', Revision = []\<rparr> \<le> 0"
proof -
  let ?e1 = "\<lparr>Epoch = 1, Upstream = ''999'', Revision = []\<rparr>"
  let ?e2 = "\<lparr>Epoch = 2, Upstream = ''1.0'', Revision = []\<rparr>"
  let ?u1 = "\<lparr>Epoch = 0, Upstream = ''1.0'', Revision = ''2''\<rparr>"
  let ?u2 = "\<lparr>Epoch = 0, Upstream = ''2.0'', Revision = ''1''\<rparr>"
  let ?t1 = "\<lparr>Epoch = 0, Upstream = ''1.0'', Revision = []\<rparr>"
  let ?t2 = "\<lparr>Epoch = 0, Upstream = ''1.0'', Revision = ''1''\<rparr>"
  let ?t3 = "\<lparr>Epoch = 0, Upstream = ''1.0.1'', Revision = []\<rparr>"
  have e: "Epoch ?e1 < Epoch ?e2" by simp
  have 1: "compare ?e1 ?e2 < 0"
    using compare_debian_order[where a = ?e1 and b = ?e2, THEN conjunct1] e by blast
  have 2: "0 < compare ?e2 ?e1"
    using compare_debian_order[where a = ?e2 and b = ?e1, THEN conjunct2, THEN conjunct1] e by blast
  have u: "compare_string ''1.0'' ''2.0'' = - 1" by code_simp
  have "Epoch ?u1 = Epoch ?u2" by simp
  then have "compare ?u1 ?u2 = (if compare_string (Upstream ?u1) (Upstream ?u2) \<noteq> 0
                       then compare_string (Upstream ?u1) (Upstream ?u2)
                       else compare_string (Revision ?u1) (Revision ?u2))"
    using compare_debian_order[where a = ?u1 and b = ?u2,
            THEN conjunct2, THEN conjunct2, THEN conjunct1] by blast
  then have 3: "compare ?u1 ?u2 = - 1" using u by simp
  have seg: "list_all (\<lambda>c. \<not> is_digit c) [] \<and> list_all is_digit ''1''
        \<and> (''1'' = [] \<longrightarrow> ''.0'' = []) \<and> (''.0'' = [] \<or> \<not> is_digit (hd ''.0''))
        \<and> list_all (\<lambda>c. \<not> is_digit c) [] \<and> list_all is_digit ''1''
        \<and> (''1'' = [] \<longrightarrow> ''.0.0'' = []) \<and> (''.0.0'' = [] \<or> \<not> is_digit (hd ''.0.0''))"
    by (simp add: is_digit_def)
  have "compare_string ([] @ ''1'' @ ''.0'') ([] @ ''1'' @ ''.0.0'') =
           (if compare_nondigit [] [] \<noteq> 0 then compare_nondigit [] []
            else if number ''1'' < number ''1'' then - 1
            else if number ''1'' < number ''1'' then 1
            else compare_string ''.0'' ''.0.0'')"
    using compare_debian_order[where na = "[]" and da = "''1''" and ra = "''.0''"
            and nb = "[]" and db = "''1''" and rb = "''.0.0''",
            THEN conjunct2, THEN conjunct2, THEN conjunct2, THEN conjunct1, THEN mp, OF seg] .
  then have 4: "compare_string ''1.0'' ''1.0.0'' = compare_string ''.0'' ''.0.0''" by simp
  note rest = compare_debian_order[where p = "''.''" and x = "CHR ''a''" and y = "CHR ''+''"
                and xs = "[]" and ys = "[]" and a = ?t1 and b = ?t2 and c = ?t3,
                THEN conjunct2, THEN conjunct2, THEN conjunct2, THEN conjunct2, THEN conjunct2]
  note rest2 = compare_debian_order[where p = "''.''" and x = "CHR ''+''" and y = "CHR ''a''"
                and xs = "[]" and ys = "[]",
                THEN conjunct2, THEN conjunct2, THEN conjunct2, THEN conjunct2, THEN conjunct2]
  have lt: "order CHR ''a'' < order CHR ''+''" by code_simp
  have 5: "compare_nondigit ''.a'' ''.+'' = - 1" using rest lt by simp
  have 6: "compare_nondigit ''.+'' ''.a'' = 1" using rest2 lt by simp
  have 7: "compare_nondigit ''.'' ''.a'' = - 1" using rest by simp
  have 8: "order CHR ''~'' < order CHR ''a''" using rest by simp
  have l: "is_letter CHR ''a'' \<and> \<not> is_letter CHR ''+'' \<and> CHR ''+'' \<noteq> CHR ''~''" by code_simp
  have 9: "order CHR ''a'' < order CHR ''+''" using rest l by blast
  have ab: "compare ?t1 ?t2 \<le> 0" by code_simp
  have bc: "compare ?t2 ?t3 \<le> 0" by code_simp
  have 10: "compare ?t1 ?t3 \<le> 0" using rest ab bc by blast
  show ?thesis using 1 2 3 4 5 6 7 8 9 10 by blast
qed


section \<open>Resolving a virtual package\<close>

text \<open>
  C4. \<^verbatim>\<open>resolveVirtualPackage\<close> collects the pool's packages found by \<^verbatim>\<open>ExactlyEqual\<close> under
  the name and version of each provider of the virtual entry. With none it fails; with exactly
  one it returns that one; with two or more it returns one that is also exactly present in the
  candidate database if there is any, otherwise one of priority \<^verbatim>\<open>required\<close> if there is any,
  and otherwise fails with the error for multiple installation candidates.
\<close>

theorem resolveVirtualPackage_choice:
  "set (virtualProviders L pool v)
     = {q. \<exists>provider\<in>set (Providers v). ExactlyEqual L pool (Package provider) (Version provider) = Some q}
   \<and> (virtualProviders L pool v = [] \<longrightarrow>
        resolveVirtualPackage L pool cand v = Inl (UnsatisfiableVirtual (Package v)))
   \<and> (\<forall>p. virtualProviders L pool v = [p] \<longrightarrow> resolveVirtualPackage L pool cand v = Inr p)
   \<and> (2 \<le> length (virtualProviders L pool v) \<longrightarrow>
        (if \<exists>p\<in>set (virtualProviders L pool v). ExactlyEqual L cand (Package p) (Version p) \<noteq> None
         then \<exists>p\<in>set (virtualProviders L pool v).
                resolveVirtualPackage L pool cand v = Inr p
                \<and> ExactlyEqual L cand (Package p) (Version p) \<noteq> None
         else if \<exists>p\<in>set (virtualProviders L pool v). Priority p = ''required''
         then \<exists>p\<in>set (virtualProviders L pool v).
                resolveVirtualPackage L pool cand v = Inr p \<and> Priority p = ''required''
         else resolveVirtualPackage L pool cand v = Inl (MultipleCandidates (Package v))))"
proof (intro conjI allI impI)
  show "set (virtualProviders L pool v)
     = {q. \<exists>provider\<in>set (Providers v). ExactlyEqual L pool (Package provider) (Version provider) = Some q}"
    by (simp add: virtualProviders_def set_map_filter)
next
  assume "virtualProviders L pool v = []"
  then show "resolveVirtualPackage L pool cand v = Inl (UnsatisfiableVirtual (Package v))"
    by (simp add: resolveVirtualPackage_def)
next
  fix p assume "virtualProviders L pool v = [p]"
  then show "resolveVirtualPackage L pool cand v = Inr p"
    by (simp add: resolveVirtualPackage_def)
next
  let ?vps = "virtualProviders L pool v"
  let ?inc = "\<lambda>pkg. ExactlyEqual L cand (Package pkg) (Version pkg) \<noteq> None"
  let ?req = "\<lambda>pkg. Priority pkg = ''required''"
  assume len: "2 \<le> length ?vps"
  then obtain a b rest where vps: "?vps = a # b # rest"
    by (cases ?vps; cases "tl ?vps") auto
  have res: "resolveVirtualPackage L pool cand v =
      (case find ?inc ?vps of Some pkg \<Rightarrow> Inr pkg
       | None \<Rightarrow> (case find ?req ?vps of Some pkg \<Rightarrow> Inr pkg
                   | None \<Rightarrow> Inl (MultipleCandidates (Package v))))"
    unfolding resolveVirtualPackage_def Let_def vps by (simp only: list.case)
  show "if \<exists>p\<in>set ?vps. ?inc p
         then \<exists>p\<in>set ?vps. resolveVirtualPackage L pool cand v = Inr p \<and> ?inc p
         else if \<exists>p\<in>set ?vps. ?req p
         then \<exists>p\<in>set ?vps. resolveVirtualPackage L pool cand v = Inr p \<and> ?req p
         else resolveVirtualPackage L pool cand v = Inl (MultipleCandidates (Package v))"
  proof (cases "find ?inc ?vps")
    case (Some q)
    then have "q \<in> set ?vps \<and> ?inc q" by (rule find_Some_in)
    then show ?thesis using res Some by auto
  next
    case None
    then have noinc: "\<not> (\<exists>p\<in>set ?vps. ?inc p)" by (simp add: find_None_all)
    show ?thesis
    proof (cases "find ?req ?vps")
      case (Some q)
      then have "q \<in> set ?vps \<and> ?req q" by (rule find_Some_in)
      then show ?thesis using res None Some noinc by auto
    next
      case None2: None
      then have "\<not> (\<exists>p\<in>set ?vps. ?req p)" by (simp add: find_None_all)
      then show ?thesis using res None None2 noinc by simp
    qed
  qed
qed

theorem resolveVirtualPackage_choice_witness:
  "length (virtualProviders sample_lib awk_pool awk_virtual) = 2
   \<and> \<not> (\<exists>p\<in>set (virtualProviders sample_lib awk_pool awk_virtual).
           ExactlyEqual sample_lib [] (Package p) (Version p) \<noteq> None)
   \<and> (\<exists>p\<in>set (virtualProviders sample_lib awk_pool awk_virtual).
         resolveVirtualPackage sample_lib awk_pool [] awk_virtual = Inr p \<and> Priority p = ''required'')"
proof -
  have a: "length (virtualProviders sample_lib awk_pool awk_virtual) = 2" by code_simp
  have b: "\<not> (\<exists>p\<in>set (virtualProviders sample_lib awk_pool awk_virtual).
           ExactlyEqual sample_lib [] (Package p) (Version p) \<noteq> None)" by code_simp
  have c: "\<exists>p\<in>set (virtualProviders sample_lib awk_pool awk_virtual). Priority p = ''required''"
    by code_simp
  have d: "2 \<le> length (virtualProviders sample_lib awk_pool awk_virtual)" using a by simp
  have "\<exists>p\<in>set (virtualProviders sample_lib awk_pool awk_virtual).
         resolveVirtualPackage sample_lib awk_pool [] awk_virtual = Inr p \<and> Priority p = ''required''"
    using resolveVirtualPackage_choice[of sample_lib awk_pool awk_virtual "[]",
            THEN conjunct2, THEN conjunct2, THEN conjunct2, THEN mp, OF d]
    unfolding if_not_P[OF b] if_P[OF c] .
  then show ?thesis using a b by blast
qed

section \<open>Closure of the selection\<close>


















section \<open>The pool is not modified\<close>

lemma unchanged_except_refl: "unchanged_except a h h"
  by (simp add: unchanged_except_def)

lemma unchanged_except_trans:
  "unchanged_except a h h1 \<Longrightarrow> unchanged_except a h1 h2 \<Longrightarrow> unchanged_except a h h2"
  by (simp add: unchanged_except_def)

lemma unchanged_except_call: "unchanged_except a h (call a f h)"
  by (simp add: unchanged_except_def call_def)

lemma unchanged_except_fold_call: "unchanged_except a h (fold (\<lambda>x. call a (f x)) xs h)"
proof (induction xs arbitrary: h)
  case Nil
  show ?case by (simp add: unchanged_except_refl)
next
  case (Cons x xs)
  have "unchanged_except a (call a (f x) h) (fold (\<lambda>x. call a (f x)) xs (call a (f x) h))"
    by (rule Cons.IH)
  then show ?case using unchanged_except_call[of a h "f x"] unchanged_except_trans by fastforce
qed

lemma seedCandidates_frame:
  "seedCandidates L r c reqs requestedPackages h = (res, h') \<Longrightarrow> unchanged_except c h h'"
proof (induction reqs arbitrary: requestedPackages h)
  case Nil
  then show ?case by (simp add: unchanged_except_refl)
next
  case (Cons x xs)
  show ?case
  proof (cases "snd (SplitN2 x)")
    case None
    show ?thesis
    proof (cases "Get L (h ! r) (fst (SplitN2 x)) = []")
      case True
      then show ?thesis using Cons.prems None by (simp add: unchanged_except_refl)
    next
      case False
      let ?h1 = "call c (AddAll L (Get L (h ! r) (fst (SplitN2 x)))) h"
      have "seedCandidates L r c xs (AList.update (fst (SplitN2 x)) None requestedPackages) ?h1 = (res, h')"
        using Cons.prems None False by simp
      then have "unchanged_except c ?h1 h'" by (rule Cons.IH)
      then show ?thesis using unchanged_except_call unchanged_except_trans by blast
    qed
  next
    case (Some vtext)
    show ?thesis
    proof (cases "version_Parse L vtext")
      case None
      then show ?thesis using Cons.prems Some by (simp add: unchanged_except_refl)
    next
      case (Some v)
      note v = this
      show ?thesis
      proof (cases "ExactlyEqual L (h ! r) (fst (SplitN2 x)) v")
        case None
        then show ?thesis using Cons.prems \<open>snd (SplitN2 x) = Some vtext\<close> v
          by (simp add: unchanged_except_refl)
      next
        case (Some pkg)
        let ?h1 = "call c (Add L pkg) h"
        have "seedCandidates L r c xs (AList.update (fst (SplitN2 x)) (Some v) requestedPackages) ?h1 = (res, h')"
          using Cons.prems \<open>snd (SplitN2 x) = Some vtext\<close> v Some by simp
        then have "unchanged_except c ?h1 h'" by (rule Cons.IH)
        then show ?thesis using unchanged_except_call unchanged_except_trans by blast
      qed
    qed
  qed
qed

lemma buildTree_frame:
  assumes "buildTree L r c queue visited h = Some y"
  shows "unchanged_except c h (snd y)"
proof (rule buildTree.raw_induct
         [where P = "\<lambda>L r c queue visited h y. unchanged_except c h (snd y)", OF _ assms])
  fix build L r c queue visited h y
  assume IH: "\<And>L r c queue visited h y. build L r c queue visited h = Some y \<Longrightarrow>
                 unchanged_except c h (snd y)"
    and step: "(case queue of
        [] \<Rightarrow> Some (Inr (), h)
      | pkg # rest \<Rightarrow>
          if ID L pkg \<in> visited then build L r c rest visited h
          else
            (case getDependencies L (h ! r) (h ! c) pkg of
               Inl err \<Rightarrow> Some (Inl (FailedToGetDependencies (Package pkg) err), h)
             | Inr deps \<Rightarrow>
                 build L r c
                   (rest @ filter (\<lambda>d. ID L d \<notin> insert (ID L pkg) visited) deps)
                   (insert (ID L pkg) visited)
                   (fold (\<lambda>d. call c (Add L d)) (filter (\<lambda>d. ID L d \<notin> insert (ID L pkg) visited) deps) h))) = Some y"
  show "unchanged_except c h (snd y)"
  proof (cases queue)
    case Nil
    then show ?thesis using step by (auto simp: unchanged_except_refl)
  next
    case (Cons pkg rest)
    show ?thesis
    proof (cases "ID L pkg \<in> visited")
      case True
      then show ?thesis using step Cons IH by simp
    next
      case False
      show ?thesis
      proof (cases "getDependencies L (h ! r) (h ! c) pkg")
        case (Inl err)
        then show ?thesis using step Cons False by (auto simp: unchanged_except_refl)
      next
        case (Inr deps)
        let ?new = "filter (\<lambda>d. ID L d \<notin> insert (ID L pkg) visited) deps"
        have "build L r c (rest @ ?new) (insert (ID L pkg) visited) (fold (\<lambda>d. call c (Add L d)) ?new h) = Some y"
          using step Cons False Inr by simp
        then have "unchanged_except c (fold (\<lambda>d. call c (Add L d)) ?new h) (snd y)" by (rule IH)
        then show ?thesis
          using unchanged_except_fold_call[of c h "\<lambda>d. Add L d" ?new] unchanged_except_trans by blast
      qed
    qed
  qed
qed

lemma pruneUnsatisfied_frame:
  assumes "pruneUnsatisfied L a h = Some h'"
  shows "unchanged_except a h h'"
proof (rule pruneUnsatisfied.raw_induct[where P = "\<lambda>L a h h'. unchanged_except a h h'", OF _ assms])
  fix prune L a h h'
  assume IH: "\<And>L a h h'. prune L a h = Some h' \<Longrightarrow> unchanged_except a h h'"
    and step: "(if filter (\<lambda>pkg. isl (getDependencies L (h ! a) (h ! a) pkg)) (h ! a) = []
                then Some h
                else prune L a
                       (fold (\<lambda>pkg. call a (Remove L pkg))
                          (filter (\<lambda>pkg. isl (getDependencies L (h ! a) (h ! a) pkg)) (h ! a))
                          h)) = Some h'"
  show "unchanged_except a h h'"
  proof (cases "filter (\<lambda>pkg. isl (getDependencies L (h ! a) (h ! a) pkg)) (h ! a) = []")
    case True
    then show ?thesis using step by (simp add: unchanged_except_refl)
  next
    case False
    let ?l = "filter (\<lambda>pkg. isl (getDependencies L (h ! a) (h ! a) pkg)) (h ! a)"
    have "prune L a (fold (\<lambda>pkg. call a (Remove L pkg)) ?l h) = Some h'" using step False by simp
    then have "unchanged_except a (fold (\<lambda>pkg. call a (Remove L pkg)) ?l h) h'" by (rule IH)
    then show ?thesis
      using unchanged_except_fold_call[of a h "\<lambda>pkg. Remove L pkg" ?l] unchanged_except_trans by blast
  qed
qed

lemma unchanged_except_old:
  "unchanged_except a h h' \<Longrightarrow> b < length h \<Longrightarrow> length h \<le> a \<Longrightarrow> h' ! b = h ! b"
  by (simp add: unchanged_except_def)

lemma extends_refl: "extends h h" by (simp add: extends_def)
lemma extends_trans: "extends h h1 \<Longrightarrow> extends h1 h2 \<Longrightarrow> extends h h2"
  by (auto simp: extends_def)
lemma extends_New: "extends h (snd (NewPackageDB h))"
  by (simp add: extends_def NewPackageDB_def nth_append)
lemma extends_fresh: "unchanged_except a h1 h2 \<Longrightarrow> extends h h1 \<Longrightarrow> length h \<le> a \<Longrightarrow> extends h h2"
  by (auto simp: extends_def unchanged_except_def)

text \<open>
  C9. \<^verbatim>\<open>Resolve\<close> never modifies the pool: whenever it returns, with a selection or with an
  error, the database at the pool's address is the one that was there before the call, and so is
  every other database that existed before the call; the insertions and removals act on the two
  databases \<^verbatim>\<open>Resolve\<close> creates, which lie at new addresses.
\<close>

theorem Resolve_frame:
  assumes "Resolve L r packageNameVersions h = Some (res, h')"
  shows "r < length h \<and> h' ! r = h ! r \<and> length h \<le> length h' \<and> (\<forall>a<length h. h' ! a = h ! a)"
proof -
  have r: "r < length h" using assms by (auto simp: Resolve_def split: if_splits)
  let ?c = "fst (NewPackageDB h)"
  let ?h0 = "snd (NewPackageDB h)"
  have c: "?c = length h" by (simp add: NewPackageDB_def)
  obtain sres h1 where seed: "seedCandidates L r ?c packageNameVersions [] ?h0 = (sres, h1)"
    by (cases "seedCandidates L r ?c packageNameVersions [] ?h0") auto
  have e1: "extends h h1"
    using extends_fresh[OF seedCandidates_frame[OF seed] extends_New] c by simp
  have "extends h h'"
  proof (cases sres)
    case (Inl err)
    then have "h' = h1" using assms seed r by (simp add: Resolve_def)
    then show ?thesis using e1 by simp
  next
    case (Inr requestedPackages)
    note req = this
    show ?thesis
    proof (cases "buildTree L r ?c (h1 ! ?c) {} h1")
      case None
      then show ?thesis using assms seed r req by (simp add: Resolve_def)
    next
      case (Some y)
      obtain bres h2 where y: "y = (bres, h2)" by (cases y) auto
      have e2: "extends h h2"
        using extends_fresh[OF buildTree_frame[OF Some] e1] c y by simp
      show ?thesis
      proof (cases bres)
        case (Inl err)
        then have "h' = h2" using assms seed r req Some y by (simp add: Resolve_def)
        then show ?thesis using e2 by simp
      next
        case (Inr u)
        note bt = this
        show ?thesis
        proof (cases "pruneUnsatisfied L ?c h2")
          case None
          then show ?thesis using assms seed r req Some y bt by (simp add: Resolve_def)
        next
          case (Some h3)
          note p1 = this
          have e3: "extends h h3" using extends_fresh[OF pruneUnsatisfied_frame[OF p1] e2] c by simp
          let ?s = "fst (NewPackageDB h3)"
          let ?h4 = "fold (\<lambda>pkg. call ?s (selectNewest L requestedPackages pkg)) (h3 ! ?c) (snd (NewPackageDB h3))"
          have s: "length h \<le> ?s" using e3 by (simp add: NewPackageDB_def extends_def)
          have e4: "extends h ?h4"
            using extends_fresh[OF unchanged_except_fold_call extends_trans[OF e3 extends_New] s] .
          show ?thesis
          proof (cases "pruneUnsatisfied L ?s ?h4")
            case None
            then show ?thesis
              using assms seed r req \<open>buildTree L r ?c (h1 ! ?c) {} h1 = Some y\<close> y bt p1
              by (simp add: Resolve_def)
          next
            case (Some h5)
            have "h' = h5"
              using assms seed r req \<open>buildTree L r ?c (h1 ! ?c) {} h1 = Some y\<close> y bt p1 Some
              by (simp add: Resolve_def split: if_splits)
            then show ?thesis using extends_fresh[OF pruneUnsatisfied_frame[OF Some] e4 s] by simp
          qed
        qed
      qed
    qed
  qed
  then show ?thesis using r by (simp add: extends_def)
qed


theorem Resolve_frame_witness:
  "(\<exists>s h'. Resolve sample_lib 0 [''bash''] [bash_pool] = Some (Inr s, h')
       \<and> h' ! 0 = bash_pool \<and> length h' = 3)
   \<and> (\<exists>err h'. Resolve sample_lib 0 [''gawk''] [bash_pool] = Some (Inl err, h')
       \<and> h' ! 0 = bash_pool \<and> length h' = 2)"
proof -
  have "case Resolve sample_lib 0 [''bash''] [bash_pool] of
          Some (Inr s, h') \<Rightarrow> length h' = 3 | _ \<Rightarrow> False"
    by code_simp
  then obtain s h1 where a: "Resolve sample_lib 0 [''bash''] [bash_pool] = Some (Inr s, h1)"
    and la: "length h1 = 3"
    by (auto split: option.splits prod.splits sum.splits)
  have "case Resolve sample_lib 0 [''gawk''] [bash_pool] of
          Some (Inl err, h') \<Rightarrow> length h' = 2 | _ \<Rightarrow> False"
    by code_simp
  then obtain err h2 where b: "Resolve sample_lib 0 [''gawk''] [bash_pool] = Some (Inl err, h2)"
    and lb: "length h2 = 2"
    by (auto split: option.splits prod.splits sum.splits)
  have "h1 ! 0 = bash_pool" using Resolve_frame[OF a] by simp
  moreover have "h2 ! 0 = bash_pool" using Resolve_frame[OF b] by simp
  ultimately show ?thesis using a b la lb by blast
qed

section \<open>Repeated requests\<close>














section \<open>Decompression\<close>

lemma HasPrefix_take:
  "length prefix \<le> n \<Longrightarrow> HasPrefix (take n s) prefix = HasPrefix s prefix"
  by (simp add: HasPrefix_def min_def)

text \<open>
  C8 (as amended). \<^verbatim>\<open>Decompress\<close> looks at the first eight bytes. On a stream of at least eight
  bytes it returns what \<^verbatim>\<open>gzip.NewReader\<close> returns (a decoding reader or its error) when the
  stream begins with 1F 8B, what \<^verbatim>\<open>xz.NewReader\<close> returns when it begins with
  FD 37 7A 58 5A 00, and the stream itself otherwise. On a stream of fewer than eight bytes it
  returns the error that ends the stream, whatever the stream begins with.
\<close>

theorem Decompress_sniffs:
  "(8 \<le> length (content r) \<and> HasPrefix (content r) gzip_magic \<longrightarrow>
       Decompress C r = gzip_NewReader C r)
   \<and> (8 \<le> length (content r) \<and> \<not> HasPrefix (content r) gzip_magic \<and> HasPrefix (content r) xz_magic \<longrightarrow>
       Decompress C r = xz_NewReader C r)
   \<and> (8 \<le> length (content r) \<and> \<not> HasPrefix (content r) gzip_magic \<and> \<not> HasPrefix (content r) xz_magic \<longrightarrow>
       Decompress C r = Inr r)
   \<and> (length (content r) < 8 \<longrightarrow> Decompress C r = Inl (ending r))"
proof -
  have g: "HasPrefix (take 8 (content r)) [CHR 0x1F, CHR 0x8B] = HasPrefix (content r) gzip_magic"
    unfolding gzip_magic_def by (rule HasPrefix_take) simp
  have x: "HasPrefix (take 8 (content r)) [CHR 0xFD, CHR 0x37, CHR 0x7A, CHR 0x58, CHR 0x5A, CHR 0x00]
             = HasPrefix (content r) xz_magic"
    unfolding xz_magic_def by (rule HasPrefix_take) simp
  show ?thesis
    unfolding Decompress_def Peek_def
    by (auto simp: g x split: sum.splits)
qed

theorem Decompress_sniffs_witness:
  "Decompress sample_codecs \<lparr>content = gzip_magic @ ''12345678'', ending = EOF\<rparr>
      = Inr \<lparr>content = ''12345678'', ending = EOF\<rparr>
   \<and> Decompress sample_codecs \<lparr>content = xz_magic @ ''12345678'', ending = EOF\<rparr>
      = Inr \<lparr>content = ''12345678'', ending = EOF\<rparr>
   \<and> Decompress sample_codecs \<lparr>content = ''Package: bash'', ending = EOF\<rparr>
      = Inr \<lparr>content = ''Package: bash'', ending = EOF\<rparr>
   \<and> Decompress sample_codecs \<lparr>content = ''a: b'', ending = EOF\<rparr> = Inl EOF"
proof -
  let ?g = "\<lparr>content = gzip_magic @ ''12345678'', ending = EOF\<rparr>"
  let ?x = "\<lparr>content = xz_magic @ ''12345678'', ending = EOF\<rparr>"
  let ?p = "\<lparr>content = ''Package: bash'', ending = EOF\<rparr>"
  let ?s = "\<lparr>content = ''a: b'', ending = EOF\<rparr>"
  have hg: "8 \<le> length (content ?g) \<and> HasPrefix (content ?g) gzip_magic"
    by (simp add: HasPrefix_def gzip_magic_def)
  have hx: "8 \<le> length (content ?x) \<and> \<not> HasPrefix (content ?x) gzip_magic \<and> HasPrefix (content ?x) xz_magic"
    by (simp add: HasPrefix_def gzip_magic_def xz_magic_def)
  have hp: "8 \<le> length (content ?p) \<and> \<not> HasPrefix (content ?p) gzip_magic \<and> \<not> HasPrefix (content ?p) xz_magic"
    by (simp add: HasPrefix_def gzip_magic_def xz_magic_def)
  have hs: "length (content ?s) < 8" by simp
  have 1: "Decompress sample_codecs ?g = gzip_NewReader sample_codecs ?g"
    using Decompress_sniffs[of ?g sample_codecs, THEN conjunct1] hg by blast
  have 2: "Decompress sample_codecs ?x = xz_NewReader sample_codecs ?x"
    using Decompress_sniffs[of ?x sample_codecs, THEN conjunct2, THEN conjunct1] hx by blast
  have 3: "Decompress sample_codecs ?p = Inr ?p"
    using Decompress_sniffs[of ?p sample_codecs, THEN conjunct2, THEN conjunct2, THEN conjunct1] hp by blast
  have 4: "Decompress sample_codecs ?s = Inl (ending ?s)"
    using Decompress_sniffs[of ?s sample_codecs, THEN conjunct2, THEN conjunct2, THEN conjunct2] hs by blast
  show ?thesis using 1 2 3 4 by (simp add: sample_codecs_def gzip_magic_def xz_magic_def)
qed

text \<open>Seven bytes that begin with the gzip magic, and the four bytes \<^verbatim>\<open>a: b\<close> that begin with
  neither magic: \<^verbatim>\<open>Decompress\<close> returns \<^verbatim>\<open>io.EOF\<close> for both, no gzip reader and no
  pass-through reader.\<close>

theorem Decompress_short_counterexample:
  "HasPrefix (content \<lparr>content = gzip_magic @ ''12345'', ending = EOF\<rparr>) gzip_magic
   \<and> Decompress sample_codecs \<lparr>content = gzip_magic @ ''12345'', ending = EOF\<rparr> = Inl EOF
   \<and> gzip_NewReader sample_codecs \<lparr>content = gzip_magic @ ''12345'', ending = EOF\<rparr>
        = Inr \<lparr>content = ''12345'', ending = EOF\<rparr>
   \<and> \<not> HasPrefix ''a: b'' gzip_magic \<and> \<not> HasPrefix ''a: b'' xz_magic
   \<and> Decompress sample_codecs \<lparr>content = ''a: b'', ending = EOF\<rparr> = Inl EOF"
  by (simp add: Decompress_def Peek_def HasPrefix_def gzip_magic_def xz_magic_def sample_codecs_def)


section \<open>The candidate files of a component\<close>





section \<open>The components of a source\<close>

lemma buildComponents_map:
  "url_Parse E (url_String (source_URL s)) = Inr u \<Longrightarrow>
   buildComponents E s sums pairs = Inr (map (\<lambda>(cname, a). makeComponent E s sums u cname a) pairs)"
  by (induction pairs) auto

lemma Components_pairs:
  assumes "url_Parse E (url_String (source_URL s)) = Inr u"
    and "NewRequest E (url_String (u\<lparr>Path := path_Join E [Path u, ''dists'', distribution s, ''InRelease'']\<rparr>)) = Inr req"
    and "Do E req = Inr resp" and "StatusCode resp = 200"
    and "NewDecoder E (Body resp) = Inr dec" and "Signer dec \<noteq> None"
    and "Decode_Release E dec = Inr rel" and "Release_SHA256Sums rel = Inr sums"
    and "archs = filter (\<lambda>a. arch_Is L a ''all'' \<or> arch_Is L a targetArch) (Release_Architectures rel)"
    and "comps = filter (\<lambda>cname. cname \<in> set defaultComponents \<union> set (components s)) (Release_Components rel)"
    and "archs \<noteq> []" and "comps \<noteq> []"
  shows "Components L E s targetArch
           = Inr (map (\<lambda>(cname, a). makeComponent E s sums u cname a) (List.product comps archs))"
  using assms by (simp add: Components_def buildComponents_map)

text \<open>
  C6. The table of a component is not always the part of the release's table under its
  directory. A release with the architectures \<open>mips\<close> and \<open>mipsel\<close>, asked for \<open>mips\<close>: the
  one component returned, (\<open>main\<close>, \<open>mips\<close>), has the URL the specification states, and its table holds
  the entry of \<^verbatim>\<open>main/binary-mipsel/Packages.gz\<close> under that whole path, beside
  \<^verbatim>\<open>Packages.gz\<close>: the test \<^verbatim>\<open>strings.HasPrefix(filename, componentDir)\<close> lacks the
  separator that the \<^verbatim>\<open>strings.TrimPrefix(filename, componentDir+"/")\<close> next to it has.
\<close>

theorem Components_table_beyond_subtree:
  "Components sample_lib sample_env sample_source ''mips''
     = Inr [\<lparr>Component_Name = ''main'', Arch = ''mips'',
             URL = \<lparr>Origin = ''http://mirror'', Path = ''/debian/dists/stable/main/binary-mips''\<rparr>,
             Component_SHA256Sums =
               [(''Packages.gz'', ''d1''), (''main/binary-mipsel/Packages.gz'', ''d2'')],
             sourceURL = mirror\<rparr>]
   \<and> Release_SHA256Sums mips_release
       = Inr [(''main/binary-mips/Packages.gz'', ''d1''), (''main/binary-mipsel/Packages.gz'', ''d2'')]"
  by code_simp

section \<open>The virtual entries of the database\<close>

text \<open>
  C2. The virtual entries do not always follow the packages of the database. Adding \<open>gawk\<close> 5.2
  with \<^verbatim>\<open>Provides: awk\<close> and then \<open>gawk\<close> 5.2 of the same identity without it replaces the
  package and leaves the virtual entry \<open>awk\<close> with the replaced package as provider: no
  package of the database provides \<open>awk\<close>. Removing, after the first addition, the package
  under the value without Provides removes the one provider and leaves the virtual entry.
  Adding and then removing the same value leaves the database empty.
\<close>

theorem virtual_entry_outlives_provider:
  "Compare sample_lib gawk_plain gawk_awk = 0
   \<and> all_Possibilities (Provides gawk_plain) = []
   \<and> map brief (Add sample_lib gawk_awk []) = [(''awk'', [], True, [''gawk'']), (''gawk'', ''5.2'', False, [])]
   \<and> Add sample_lib gawk_plain (Add sample_lib gawk_awk [])
       = [set_Providers [gawk_awk] (virtualPkg ''awk'' zero_Version), gawk_plain]
   \<and> Remove sample_lib gawk_plain (Add sample_lib gawk_awk [])
       = [set_Providers [gawk_awk] (virtualPkg ''awk'' zero_Version)]
   \<and> Remove sample_lib gawk_awk (Add sample_lib gawk_awk []) = []"
  by code_simp

section \<open>The newest version of each name\<close>

text \<open>
  C3. The walk over the candidates takes the virtual entries of the candidate database for
  versions of the package of their name. With the package \<open>n\<close> 1.0 and a package \<open>z\<close> that
  provides \<open>n\<close> (= 0.5) and \<open>n\<close> (= 2.0), no name being pinned: the virtual entry \<open>n\<close> 0.5 enters,
  \<open>n\<close> 1.0 replaces it, the virtual entry \<open>n\<close> 2.0 replaces \<open>n\<close> 1.0, and adding \<open>z\<close> makes the
  virtual entry \<open>n\<close> 0.5 again. The selected database ends with two entries of the name \<open>n\<close>,
  both virtual, and without the only package of that name; \<^verbatim>\<open>Resolve\<close> returns it for the
  requests \<open>n\<close> and \<open>z\<close>.
\<close>

theorem virtual_entry_replaces_package:
  "map brief n_pool
     = [(''n'', ''0.5'', True, [''z'']), (''n'', ''1.0'', False, []), (''n'', ''2.0'', True, [''z'']),
        (''z'', ''1.0'', False, [])]
   \<and> map brief (fold (selectNewest sample_lib [(''n'', None), (''z'', None)]) n_pool [])
     = [(''n'', ''0.5'', True, [''z'']), (''n'', ''2.0'', True, [''z'']), (''z'', ''1.0'', False, [])]
   \<and> (case Resolve sample_lib 0 [''n'', ''z''] [n_pool] of
         Some (Inr s, h') \<Rightarrow>
           map brief (h' ! s)
             = [(''n'', ''0.5'', True, [''z'']), (''n'', ''2.0'', True, [''z'']), (''z'', ''1.0'', False, [])]
       | _ \<Rightarrow> False)"
  by code_simp

end
